theory Spec2Isabelle
  imports Main
begin

section \<open>Python values and built-ins used by the collector\<close>

text \<open>
  The exceptions that the modelled code can raise. \<open>ClientError\<close> carries the text of
  \<open>e.response['Error']['Code']\<close>; \<open>DatabaseError\<close> stands for any error raised by the
  database driver.
\<close>

datatype error =
    KeyError
  | IndexError
  | TypeError
  | ValueError
  | ClientError string
  | DatabaseError

text \<open>
  \<open>int(s, base)\<close> on a string, for the bases 10 and 16 that the program uses. The literal
  may be surrounded by white space, may carry one sign, for base 16 one prefix \<open>0x\<close> or
  \<open>0X\<close> (with one underscore allowed right after it), and its digits may be grouped with
  single underscores. Everything else is a \<open>ValueError\<close>. Strings are sequences of 8-bit
  characters here and white space is the ASCII white space: the model covers ASCII text,
  which is what file names, asset codes and error codes consist of (on other text Python
  also skips non-ASCII white space and reads non-ASCII decimal digits).
\<close>

definition py_isspace :: "char \<Rightarrow> bool" where
  "py_isspace c = (c \<in> set [CHR 0x09, CHR 0x0A, CHR 0x0B, CHR 0x0C, CHR 0x0D, CHR 0x20])"

definition strip :: "string \<Rightarrow> string" where
  "strip s = rev (dropWhile py_isspace (rev (dropWhile py_isspace s)))"

definition digit_value :: "char \<Rightarrow> nat option" where
  "digit_value c =
     (let n = (of_char c :: nat) in
      if 48 \<le> n \<and> n \<le> 57 then Some (n - 48)
      else if 97 \<le> n \<and> n \<le> 122 then Some (n - 87)
      else if 65 \<le> n \<and> n \<le> 90 then Some (n - 55)
      else None)"

fun split_sign :: "string \<Rightarrow> bool \<times> string" where
  "split_sign [] = (False, [])"
| "split_sign (c # cs) =
     (if c = CHR ''+'' then (False, cs)
      else if c = CHR ''-'' then (True, cs)
      else (False, c # cs))"

fun drop_prefix :: "nat \<Rightarrow> string \<Rightarrow> string" where
  "drop_prefix b (c # d # cs) =
     (if b = 16 \<and> c = CHR ''0'' \<and> (d = CHR ''x'' \<or> d = CHR ''X'')
      then (case cs of [] \<Rightarrow> [] | e # es \<Rightarrow> if e = CHR ''_'' then es else e # es)
      else c # d # cs)"
| "drop_prefix b cs = cs"

fun scan_digits :: "nat \<Rightarrow> nat \<Rightarrow> string \<Rightarrow> nat option" where
  "scan_digits b acc [] = Some acc"
| "scan_digits b acc (c # cs) =
     (if c = CHR ''_''
      then (case cs of
              [] \<Rightarrow> None
            | d # ds \<Rightarrow> if d = CHR ''_'' then None else scan_digits b acc cs)
      else (case digit_value c of
              None \<Rightarrow> None
            | Some v \<Rightarrow> if v < b then scan_digits b (acc * b + v) cs else None))"

definition py_int :: "nat \<Rightarrow> string \<Rightarrow> error + int" where
  "py_int b s =
     (let (negative, t) = split_sign (strip s);
          u = drop_prefix b t
      in case u of
           [] \<Rightarrow> Inl ValueError
         | c # cs \<Rightarrow>
             if c = CHR ''_'' then Inl ValueError
             else (case scan_digits b 0 u of
                     None \<Rightarrow> Inl ValueError
                   | Some n \<Rightarrow> Inr (if negative then - int n else int n)))"

text \<open>
  \<open>hex(n)\<close> and \<open>str(n)\<close> on integers: an optional minus sign, for \<open>hex\<close> the prefix
  \<open>0x\<close>, and the digits, most significant first, in lower case.
\<close>

definition digit_char :: "nat \<Rightarrow> char" where
  "digit_char d = ''0123456789abcdef'' ! d"

fun hex_digits :: "nat \<Rightarrow> string" where
  "hex_digits n = (if n < 16 then [digit_char n] else hex_digits (n div 16) @ [digit_char (n mod 16)])"

fun dec_digits :: "nat \<Rightarrow> string" where
  "dec_digits n = (if n < 10 then [digit_char n] else dec_digits (n div 10) @ [digit_char (n mod 10)])"

definition py_hex :: "int \<Rightarrow> string" where
  "py_hex n = (if n < 0 then ''-'' else '''') @ ''0x'' @ hex_digits (nat \<bar>n\<bar>)"

definition py_str :: "int \<Rightarrow> string" where
  "py_str n = (if n < 0 then ''-'' else '''') @ dec_digits (nat \<bar>n\<bar>)"

text \<open>\<open>s.replace('0x', '')\<close>: every occurrence of \<open>0x\<close>, scanned from the left, is removed.\<close>

fun replace_0x :: "string \<Rightarrow> string" where
  "replace_0x (c # d # cs) =
     (if c = CHR ''0'' \<and> d = CHR ''x'' then replace_0x cs else c # replace_0x (d # cs))"
| "replace_0x cs = cs"

section \<open>The sequence cursor\<close>

text \<open>
  \<open>get_new_file_sequence\<close>: parse the old name in base 16, add 64, render with \<open>hex\<close>,
  remove \<open>0x\<close>, and put \<open>8 - len\<close> zeros in front (none when the length exceeds 8: a
  string times a negative number is empty).
\<close>

definition get_new_file_sequence :: "string \<Rightarrow> error + string" where
  "get_new_file_sequence old_file_name =
     (case py_int 16 old_file_name of
        Inl e \<Rightarrow> Inl e
      | Inr n \<Rightarrow>
          let new_file_name = replace_0x (py_hex (n + 64))
          in Inr (replicate (8 - length new_file_name) CHR ''0'' @ new_file_name))"

section \<open>Configuration\<close>

text \<open>
  The constants that the module reads from the environment. \<open>ASSET_TYPE\<close> is computed
  from \<open>ASSET_CODE\<close> when the module is loaded; the conditional expression binds weaker
  than \<open>+\<close>, so the concatenation belongs to its first branch only.
\<close>

record config =
  ASSET_CODE :: string
  ASSET_ISSUER :: string
  MAX_RETRIES :: int
  BUCKET_NAME :: string
  CORE_DIRECTORY :: string

definition ASSET_TYPE :: "config \<Rightarrow> string" where
  "ASSET_TYPE cfg = (if length (ASSET_CODE cfg) \<le> 4 then ''alphaNum'' @ ''4'' else ''12'')"

section \<open>Retrieval\<close>

text \<open>
  String helpers of \<open>download_file\<close>: \<open>s.split('-')\<close>, the slices \<open>s[i:i + 2]\<close> for
  \<open>i\<close> in \<open>range(0, len(s), 2)\<close>, \<open>'/'.join\<close>, and the substring test \<open>p in s\<close>.
\<close>

fun split_dash :: "string \<Rightarrow> string list" where
  "split_dash [] = [[]]"
| "split_dash (c # cs) =
     (if c = CHR ''-'' then [] # split_dash cs
      else (case split_dash cs of [] \<Rightarrow> [[c]] | p # ps \<Rightarrow> (c # p) # ps))"

fun pairs :: "string \<Rightarrow> string list" where
  "pairs (a # b # cs) = [a, b] # pairs cs"
| "pairs [a] = [[a]]"
| "pairs [] = []"

fun join_slash :: "string list \<Rightarrow> string" where
  "join_slash [] = []"
| "join_slash [x] = x"
| "join_slash (x # y # ys) = x @ ''/'' @ join_slash (y # ys)"

fun starts_with :: "string \<Rightarrow> string \<Rightarrow> bool" where
  "starts_with s [] = True"
| "starts_with [] (p # ps) = False"
| "starts_with (c # cs) (p # ps) = (c = p \<and> starts_with cs ps)"

fun contains :: "string \<Rightarrow> string \<Rightarrow> bool" where
  "contains [] p = (p = [])"
| "contains (c # cs) p = (starts_with (c # cs) p \<or> contains cs p)"

text \<open>
  The value of the local \<open>sub_directory\<close> of \<open>download_file\<close> when the retry loop
  starts. \<open>file_name.split('-')[1]\<close> raises \<open>IndexError\<close> on a name without a dash.
\<close>

definition sub_directory :: "string \<Rightarrow> error + string" where
  "sub_directory file_name =
     (case split_dash file_name of
        _ # file_number # _ \<Rightarrow>
          Inr ((if contains file_name ''ledger'' then ''ledger/'' else ''transactions/'') @
               take 9 (join_slash (pairs file_number)))
      | _ \<Rightarrow> Inl IndexError)"

text \<open>
  One call of \<open>s3.download_file\<close> either stores the file or raises a \<open>ClientError\<close>
  whose \<open>response['Error']['Code']\<close> is the given text. The store is a function from
  the attempt number to the outcome of that attempt. The observable effects of
  \<open>download_file\<close> are recorded in order: each request with its key, and each sleep
  with its duration in seconds.
\<close>

datatype fetch_outcome = Downloaded | Failed string

datatype event = Fetch string | Sleep nat

fun download_attempts ::
  "config \<Rightarrow> (nat \<Rightarrow> fetch_outcome) \<Rightarrow> string \<Rightarrow> nat list \<Rightarrow> event list \<Rightarrow>
     event list \<times> (error + unit)" where
  "download_attempts cfg s3 key [] evs = (evs, Inr ())"
| "download_attempts cfg s3 key (attempt # rest) evs =
     (case s3 attempt of
        Downloaded \<Rightarrow> (evs @ [Fetch key], Inr ())
      | Failed code \<Rightarrow>
          if int attempt = MAX_RETRIES cfg then (evs @ [Fetch key], Inl (ClientError code))
          else (case py_int 10 code of
                  Inl e \<Rightarrow> (evs @ [Fetch key], Inl e)
                | Inr error_code \<Rightarrow>
                    if error_code = 404
                    then download_attempts cfg s3 key rest (evs @ [Fetch key, Sleep 180])
                    else download_attempts cfg s3 key rest (evs @ [Fetch key])))"

definition download_file ::
  "config \<Rightarrow> (nat \<Rightarrow> fetch_outcome) \<Rightarrow> string \<Rightarrow> event list \<times> (error + unit)" where
  "download_file cfg s3 file_name =
     (case sub_directory file_name of
        Inl e \<Rightarrow> ([], Inl e)
      | Inr sub_dir \<Rightarrow>
          download_attempts cfg s3 (CORE_DIRECTORY cfg @ sub_dir @ file_name @ ''.xdr.gz'')
            [0..<nat (MAX_RETRIES cfg + 1)] [])"

text \<open>Vocabulary for statements about traces.\<close>

definition is_404 :: "fetch_outcome \<Rightarrow> bool" where
  "is_404 outcome = (case outcome of Downloaded \<Rightarrow> False | Failed code \<Rightarrow> py_int 10 code = Inr 404)"

definition retryable :: "fetch_outcome \<Rightarrow> bool" where
  "retryable outcome =
     (case outcome of
        Downloaded \<Rightarrow> False
      | Failed code \<Rightarrow> (case py_int 10 code of Inl _ \<Rightarrow> False | Inr _ \<Rightarrow> True))"

definition attempt_events :: "config \<Rightarrow> (nat \<Rightarrow> fetch_outcome) \<Rightarrow> string \<Rightarrow> nat \<Rightarrow> event list" where
  "attempt_events cfg s3 key attempt =
     Fetch key # (if is_404 (s3 attempt) \<and> int attempt \<noteq> MAX_RETRIES cfg then [Sleep 180] else [])"

definition fetches :: "event list \<Rightarrow> nat" where
  "fetches evs = length (filter (\<lambda>e. case e of Fetch _ \<Rightarrow> True | Sleep _ \<Rightarrow> False) evs)"

definition sleeps :: "event list \<Rightarrow> nat" where
  "sleeps evs = length (filter (\<lambda>e. case e of Fetch _ \<Rightarrow> False | Sleep _ \<Rightarrow> True) evs)"

section \<open>Decoded records\<close>

text \<open>
  The shape of what the decoder returns, as far as the program reads it. A dictionary
  that is indexed with fixed keys is a record; the asset dictionary, which is indexed
  with \<open>ASSET_TYPE\<close>, is a map from keys to values that may be \<open>None\<close>; the optional
  source account of an operation is a list under a key that may be missing; the arms
  of the operation body may be \<open>None\<close>.
\<close>

record account_id =
  ed25519 :: string

record alpha_num =
  assetCode :: string
  issuer :: account_id

type_synonym asset = "string \<rightharpoonup> alpha_num option"

record payment_op =
  asset :: asset
  destination :: account_id
  amount :: int

record change_trust_op =
  line :: asset

record op_body =
  body_type :: int
  paymentOp :: "payment_op option"
  changeTrustOp :: "change_trust_op option"

record operation =
  op_sourceAccount :: "account_id list option"
  body :: op_body

record memo =
  memo_text :: "string option"

record tx =
  tx_sourceAccount :: account_id
  tx_memo :: memo
  operations :: "operation list"

record transaction =
  tx :: tx
  hash :: string

record tx_set =
  txs :: "transaction list"

record transaction_history_entry =
  entry_ledgerSeq :: int
  txSet :: tx_set

record scp_value =
  closeTime :: int

record ledger_header =
  ledgerSeq :: int
  scpValue :: scp_value

record ledger =
  header :: ledger_header

text \<open>The dictionary comprehension: a later ledger with the same sequence wins.\<close>

definition get_ledgers_dictionary :: "ledger list \<Rightarrow> (int \<rightharpoonup> int)" where
  "get_ledgers_dictionary ledgers =
     fold (\<lambda>ledger d. d(ledgerSeq (header ledger) \<mapsto> closeTime (scpValue (header ledger))))
       ledgers Map.empty"

section \<open>Projection and persistence\<close>

text \<open>
  The values that \<open>write_to_postgres\<close> formats into one statement: for a payment the
  source, destination, amount, memo, transaction hash and timestamp, for a trustline
  the source, memo, transaction hash and timestamp.
\<close>

datatype row =
    PaymentRow string string int "string option" string "int option"
  | TrustlineRow string "string option" string "int option"

definition quote :: string where
  "quote = [CHR 0x27]"

definition memo_sql :: "string option \<Rightarrow> string" where
  "memo_sql memo = (case memo of Some m \<Rightarrow> quote @ m @ quote | None \<Rightarrow> ''NULL'')"

definition format_timestamp :: "int option \<Rightarrow> string" where
  "format_timestamp timestamp = (case timestamp of Some t \<Rightarrow> py_str t | None \<Rightarrow> ''None'')"

fun row_sql :: "row \<Rightarrow> string" where
  "row_sql (PaymentRow source dest amt memo tx_hash timestamp) =
     ''INSERT INTO payments VALUES ('' @ quote @ source @ quote @ '','' @ quote @ dest @ quote @
     '','' @ py_str amt @ '','' @ memo_sql memo @ '','' @ quote @ tx_hash @ quote @
     '',to_timestamp('' @ format_timestamp timestamp @ ''));''"
| "row_sql (TrustlineRow source memo tx_hash timestamp) =
     ''INSERT INTO trustlines VALUES ('' @ quote @ source @ quote @ '', '' @ memo_sql memo @
     '', '' @ quote @ tx_hash @ quote @ '',to_timestamp('' @ format_timestamp timestamp @ ''));''"

definition lastfile_sql :: "string \<Rightarrow> string" where
  "lastfile_sql file_name = ''UPDATE lastfile SET name = '' @ quote @ file_name @ quote"

text \<open>
  The test on the asset of an operation: the entry under \<open>ASSET_TYPE\<close> is not
  \<open>None\<close>, and its code and issuer equal the configured ones. A missing key raises.
\<close>

definition asset_matches :: "config \<Rightarrow> asset \<Rightarrow> error + bool" where
  "asset_matches cfg a =
     (case a (ASSET_TYPE cfg) of
        None \<Rightarrow> Inl KeyError
      | Some None \<Rightarrow> Inr False
      | Some (Some an) \<Rightarrow>
          Inr (assetCode an = ASSET_CODE cfg \<and> ed25519 (issuer an) = ASSET_ISSUER cfg))"

text \<open>
  The source of a row: the first source account of the operation when there is one;
  the \<open>KeyError\<close> and the \<open>IndexError\<close> of \<open>operation['sourceAccount'][0]\<close> are caught
  and leave the source of the transaction.
\<close>

definition row_source :: "transaction \<Rightarrow> operation \<Rightarrow> string" where
  "row_source transaction operation =
     (case op_sourceAccount operation of
        None \<Rightarrow> ed25519 (tx_sourceAccount (tx transaction))
      | Some [] \<Rightarrow> ed25519 (tx_sourceAccount (tx transaction))
      | Some (a # _) \<Rightarrow> ed25519 a)"

text \<open>The body of the loop over operations, up to the call of \<open>cur.execute\<close>.\<close>

definition operation_row ::
  "config \<Rightarrow> int option \<Rightarrow> transaction \<Rightarrow> operation \<Rightarrow> error + row option" where
  "operation_row cfg timestamp transaction operation =
     (let memo = memo_text (tx_memo (tx transaction));
          tx_hash = hash transaction
      in if body_type (body operation) = 1 then
           (case paymentOp (body operation) of
              None \<Rightarrow> Inl TypeError
            | Some p \<Rightarrow>
                (case asset_matches cfg (asset p) of
                   Inl e \<Rightarrow> Inl e
                 | Inr False \<Rightarrow> Inr None
                 | Inr True \<Rightarrow>
                     Inr (Some (PaymentRow (row_source transaction operation)
                       (ed25519 (destination p)) (amount p) memo tx_hash timestamp))))
         else if body_type (body operation) = 6 then
           (case changeTrustOp (body operation) of
              None \<Rightarrow> Inl TypeError
            | Some ct \<Rightarrow>
                (case asset_matches cfg (line ct) of
                   Inl e \<Rightarrow> Inl e
                 | Inr False \<Rightarrow> Inr None
                 | Inr True \<Rightarrow>
                     Inr (Some (TrustlineRow (row_source transaction operation)
                       memo tx_hash timestamp))))
         else Inr None)"

text \<open>
  The connection: the statements of committed transactions and the statements executed
  since the last commit, which become durable only with the next commit. Whether the
  database rejects a statement, or a commit, is a parameter. A function returns the
  exception that left it, if any, and the connection as it then is.
\<close>

record conn =
  committed :: "string list"
  pending :: "string list"

record database =
  rejects :: "conn \<Rightarrow> string \<Rightarrow> bool"
  commit_fails :: "conn \<Rightarrow> bool"

definition execute :: "database \<Rightarrow> string \<Rightarrow> conn \<Rightarrow> error option \<times> conn" where
  "execute db statement c =
     (if rejects db c statement then (Some DatabaseError, c)
      else (None, c\<lparr>pending := pending c @ [statement]\<rparr>))"

definition commit :: "database \<Rightarrow> conn \<Rightarrow> error option \<times> conn" where
  "commit db c =
     (if commit_fails db c then (Some DatabaseError, c)
      else (None, c\<lparr>committed := committed c @ pending c, pending := []\<rparr>))"

fun operations_loop ::
  "config \<Rightarrow> database \<Rightarrow> int option \<Rightarrow> transaction \<Rightarrow> operation list \<Rightarrow> conn \<Rightarrow>
     error option \<times> conn" where
  "operations_loop cfg db timestamp transaction [] c = (None, c)"
| "operations_loop cfg db timestamp transaction (operation # rest) c =
     (case operation_row cfg timestamp transaction operation of
        Inl e \<Rightarrow> (Some e, c)
      | Inr None \<Rightarrow> operations_loop cfg db timestamp transaction rest c
      | Inr (Some r) \<Rightarrow>
          (case execute db (row_sql r) c of
             (Some e, c') \<Rightarrow> (Some e, c')
           | (None, c') \<Rightarrow> operations_loop cfg db timestamp transaction rest c'))"

fun transactions_loop ::
  "config \<Rightarrow> database \<Rightarrow> int option \<Rightarrow> transaction list \<Rightarrow> conn \<Rightarrow> error option \<times> conn" where
  "transactions_loop cfg db timestamp [] c = (None, c)"
| "transactions_loop cfg db timestamp (transaction # rest) c =
     (case operations_loop cfg db timestamp transaction (operations (tx transaction)) c of
        (Some e, c') \<Rightarrow> (Some e, c')
      | (None, c') \<Rightarrow> transactions_loop cfg db timestamp rest c')"

fun entries_loop ::
  "config \<Rightarrow> database \<Rightarrow> (int \<rightharpoonup> int) \<Rightarrow> transaction_history_entry list \<Rightarrow> conn \<Rightarrow>
     error option \<times> conn" where
  "entries_loop cfg db ledgers_dictionary [] c = (None, c)"
| "entries_loop cfg db ledgers_dictionary (transaction_history_entry # rest) c =
     (let timestamp = ledgers_dictionary (entry_ledgerSeq transaction_history_entry)
      in case transactions_loop cfg db timestamp (txs (txSet transaction_history_entry)) c of
           (Some e, c') \<Rightarrow> (Some e, c')
         | (None, c') \<Rightarrow> entries_loop cfg db ledgers_dictionary rest c')"

definition write_to_postgres ::
  "config \<Rightarrow> database \<Rightarrow> transaction_history_entry list \<Rightarrow> (int \<rightharpoonup> int) \<Rightarrow> string \<Rightarrow> conn \<Rightarrow>
     error option \<times> conn" where
  "write_to_postgres cfg db transactions ledgers_dictionary file_name c =
     (case entries_loop cfg db ledgers_dictionary transactions c of
        (Some e, c') \<Rightarrow> (Some e, c')
      | (None, c') \<Rightarrow>
          (case execute db (lastfile_sql file_name) c' of
             (Some e, c'') \<Rightarrow> (Some e, c'')
           | (None, c'') \<Rightarrow> commit db c''))"

section \<open>One cycle of the main loop\<close>

text \<open>
  The body of the \<open>while True\<close> loop of \<open>main\<close> for the current \<open>file_sequence\<close>. The
  outcomes of the two downloads and the decoded contents of the two files are given;
  logging and the removal of the downloaded files are left out. The result is the
  exception that ended the cycle, if any, the file sequence held in memory afterwards,
  and the connection.
\<close>

definition main_cycle ::
  "config \<Rightarrow> database \<Rightarrow> (nat \<Rightarrow> fetch_outcome) \<Rightarrow> (nat \<Rightarrow> fetch_outcome) \<Rightarrow> ledger list \<Rightarrow>
     transaction_history_entry list \<Rightarrow> string \<Rightarrow> conn \<Rightarrow> error option \<times> string \<times> conn" where
  "main_cycle cfg db s3_ledger s3_transactions ledgers transactions file_sequence c =
     (case snd (download_file cfg s3_ledger (''ledger-'' @ file_sequence)) of
        Inl e \<Rightarrow> (Some e, file_sequence, c)
      | Inr _ \<Rightarrow>
     (case snd (download_file cfg s3_transactions (''transactions-'' @ file_sequence)) of
        Inl e \<Rightarrow> (Some e, file_sequence, c)
      | Inr _ \<Rightarrow>
     (let ledgers_dictionary = get_ledgers_dictionary ledgers
      in case write_to_postgres cfg db transactions ledgers_dictionary file_sequence c of
           (Some e, c') \<Rightarrow> (Some e, file_sequence, c')
         | (None, c') \<Rightarrow>
             (case get_new_file_sequence file_sequence of
                Inl e \<Rightarrow> (Some e, file_sequence, c')
              | Inr new_file_name \<Rightarrow> (None, new_file_name, c')))))"

text \<open>
  The rows of one transaction and of one file, in the order of the loops, for statements
  about what a successful \<open>write_to_postgres\<close> has executed.
\<close>

definition transaction_rows :: "config \<Rightarrow> int option \<Rightarrow> transaction \<Rightarrow> row list" where
  "transaction_rows cfg timestamp transaction =
     concat (map (\<lambda>operation.
       case operation_row cfg timestamp transaction operation of
         Inr (Some r) \<Rightarrow> [r] | _ \<Rightarrow> []) (operations (tx transaction)))"

definition file_rows ::
  "config \<Rightarrow> (int \<rightharpoonup> int) \<Rightarrow> transaction_history_entry list \<Rightarrow> row list" where
  "file_rows cfg ledgers_dictionary transactions =
     concat (map (\<lambda>entry.
       concat (map (transaction_rows cfg (ledgers_dictionary (entry_ledgerSeq entry)))
         (txs (txSet entry)))) transactions)"

text \<open>The timestamp that a row carries.\<close>

fun close_time :: "row \<Rightarrow> int option" where
  "close_time (PaymentRow source dest amt memo tx_hash timestamp) = timestamp"
| "close_time (TrustlineRow source memo tx_hash timestamp) = timestamp"



section \<open>Example inputs\<close>

text \<open>
  A configuration with a short asset code and a given retry limit, and two stores: one
  whose first \<open>k\<close> attempts fail with a given code and whose later attempts succeed,
  and one whose attempts all fail with a given code.
\<close>

definition example_config :: "int \<Rightarrow> config" where
  "example_config m =
     \<lparr>ASSET_CODE = ''KIN'', ASSET_ISSUER = ''GISSUER'', MAX_RETRIES = m,
      BUCKET_NAME = ''bucket'', CORE_DIRECTORY = []\<rparr>"

definition failing_first :: "nat \<Rightarrow> string \<Rightarrow> nat \<Rightarrow> fetch_outcome" where
  "failing_first k code attempt = (if attempt < k then Failed code else Downloaded)"

definition always_failing :: "string \<Rightarrow> nat \<Rightarrow> fetch_outcome" where
  "always_failing code attempt = Failed code"

text \<open>
  A decoded file pair with one ledger (sequence 100, close time 1000) and one transaction
  on that ledger, without memo, whose only operation is a payment of the configured
  asset without a source account of its own; a database that accepts everything, one
  that rejects every \<open>UPDATE\<close>, and a connection with nothing executed yet.
\<close>

definition example_asset :: asset where
  "example_asset =
     [''alphaNum4'' \<mapsto> Some \<lparr>assetCode = ''KIN'', issuer = \<lparr>ed25519 = ''GISSUER''\<rparr>\<rparr>,
      ''alphaNum12'' \<mapsto> None]"

definition example_payment :: operation where
  "example_payment =
     \<lparr>op_sourceAccount = Some [],
      body = \<lparr>body_type = 1,
              paymentOp = Some \<lparr>asset = example_asset, destination = \<lparr>ed25519 = ''GDEST''\<rparr>,
                                amount = 1500\<rparr>,
              changeTrustOp = None\<rparr>\<rparr>"

definition example_trust :: operation where
  "example_trust =
     \<lparr>op_sourceAccount = Some [\<lparr>ed25519 = ''GOTHER''\<rparr>],
      body = \<lparr>body_type = 6, paymentOp = None,
              changeTrustOp = Some \<lparr>line = example_asset\<rparr>\<rparr>\<rparr>"

definition example_transaction :: "operation list \<Rightarrow> transaction" where
  "example_transaction ops =
     \<lparr>tx = \<lparr>tx_sourceAccount = \<lparr>ed25519 = ''GSOURCE''\<rparr>, tx_memo = \<lparr>memo_text = None\<rparr>,
            operations = ops\<rparr>,
      hash = ''abcd''\<rparr>"

definition example_entry :: "operation list \<Rightarrow> transaction_history_entry" where
  "example_entry ops = \<lparr>entry_ledgerSeq = 100, txSet = \<lparr>txs = [example_transaction ops]\<rparr>\<rparr>"

definition example_ledger :: ledger where
  "example_ledger = \<lparr>header = \<lparr>ledgerSeq = 100, scpValue = \<lparr>closeTime = 1000\<rparr>\<rparr>\<rparr>"

definition accepting :: database where
  "accepting = \<lparr>rejects = (\<lambda>c statement. False), commit_fails = (\<lambda>c. False)\<rparr>"

definition rejecting_update :: database where
  "rejecting_update =
     \<lparr>rejects = (\<lambda>c statement. starts_with statement ''UPDATE''), commit_fails = (\<lambda>c. False)\<rparr>"

definition empty_conn :: conn where
  "empty_conn = \<lparr>committed = [], pending = []\<rparr>"

text \<open>
  Further inputs: a configuration with an asset code of five characters, a payment whose
  asset is that code under the decoder's key for long codes, an operation that is neither
  a payment nor a change of trust, an entry on a chosen ledger, and a database that
  refuses every statement containing \<open>to_timestamp(None)\<close> and accepts the others.
\<close>

definition long_code_config :: config where
  "long_code_config =
     \<lparr>ASSET_CODE = ''TOKEN'', ASSET_ISSUER = ''GISSUER'', MAX_RETRIES = 2,
      BUCKET_NAME = ''bucket'', CORE_DIRECTORY = []\<rparr>"

definition long_asset :: asset where
  "long_asset =
     [''alphaNum4'' \<mapsto> None,
      ''alphaNum12'' \<mapsto> Some \<lparr>assetCode = ''TOKEN'', issuer = \<lparr>ed25519 = ''GISSUER''\<rparr>\<rparr>]"

definition long_payment :: operation where
  "long_payment =
     \<lparr>op_sourceAccount = Some [],
      body = \<lparr>body_type = 1,
              paymentOp = Some \<lparr>asset = long_asset, destination = \<lparr>ed25519 = ''GDEST''\<rparr>,
                                amount = 1500\<rparr>,
              changeTrustOp = None\<rparr>\<rparr>"




section \<open>Vocabulary for file names\<close>

text \<open>
  Vocabulary for statements about file names: hexadecimal digits of either case, the
  lower-case ones that \<open>hex\<close> produces, the base-16 value of a digit string, and
  the shape of a file id (exactly 8 lower-case hexadecimal digits).
\<close>

definition is_hex_digit :: "char \<Rightarrow> bool" where
  "is_hex_digit c = (case digit_value c of None \<Rightarrow> False | Some v \<Rightarrow> v < 16)"

definition is_lower_hex :: "char \<Rightarrow> bool" where
  "is_lower_hex c = (c \<in> set ''0123456789abcdef'')"

definition digit_of :: "char \<Rightarrow> nat" where
  "digit_of c = (case digit_value c of None \<Rightarrow> 0 | Some v \<Rightarrow> v)"

definition hex_value :: "string \<Rightarrow> nat" where
  "hex_value s = foldl (\<lambda>a c. a * 16 + digit_of c) 0 s"

definition is_file_id :: "string \<Rightarrow> bool" where
  "is_file_id s = (length s = 8 \<and> list_all is_lower_hex s)"

declare hex_digits.simps [simp del]
declare dec_digits.simps [simp del]

section \<open>Facts about the built-ins\<close>

lemma hex_digits_numeral [simp]:
  "hex_digits (numeral k) =
     (if (numeral k :: nat) < 16 then [digit_char (numeral k)]
      else hex_digits (numeral k div 16) @ [digit_char (numeral k mod 16)])"
  by (rule hex_digits.simps)

lemma hex_digits_0 [simp]: "hex_digits 0 = ''0''"
  by (simp add: hex_digits.simps digit_char_def)

lemma hex_digits_1 [simp]: "hex_digits (Suc 0) = ''1''"
  by (simp add: hex_digits.simps digit_char_def)

lemma replicate_numeral [simp]:
  "replicate (numeral k) x = x # replicate (numeral k - 1) x"
  by (simp add: numeral_eq_Suc)

lemma lower_hex_is_hex_digit: "is_lower_hex c \<Longrightarrow> is_hex_digit c"
  by (auto simp: is_lower_hex_def is_hex_digit_def digit_value_def)

lemma hex_digit_not_special:
  assumes "is_hex_digit c"
  shows "\<not> py_isspace c" "c \<noteq> CHR ''_''" "c \<noteq> CHR ''+''" "c \<noteq> CHR ''-''"
    "c \<noteq> CHR ''x''" "c \<noteq> CHR ''X''"
  using assms
  by (auto simp: is_hex_digit_def digit_value_def py_isspace_def split: if_splits)

lemma nat_less_16_cases:
  "(d::nat) < 16 \<Longrightarrow> d \<in> {0, 1, 2, 3, 4, 5, 6, 7, 8, 9, 10, 11, 12, 13, 14, 15}"
  by simp arith

lemma digit_char_lower_hex: "d < 16 \<Longrightarrow> is_lower_hex (digit_char d)"
  by (drule nat_less_16_cases) (auto simp: digit_char_def is_lower_hex_def)

lemma digit_of_digit_char: "d < 16 \<Longrightarrow> digit_of (digit_char d) = d"
  by (drule nat_less_16_cases) (auto simp: digit_char_def digit_of_def digit_value_def)

lemma scan_digits_hex:
  "list_all is_hex_digit s \<Longrightarrow>
     scan_digits 16 acc s = Some (foldl (\<lambda>a c. a * 16 + digit_of c) acc s)"
proof (induction s arbitrary: acc)
  case Nil
  show ?case by simp
next
  case (Cons c cs)
  from Cons.prems have c: "is_hex_digit c" and cs: "list_all is_hex_digit cs" by simp_all
  from c obtain v where v: "digit_value c = Some v" "v < 16"
    by (auto simp: is_hex_digit_def split: option.splits)
  from c have "c \<noteq> CHR ''_''" by (rule hex_digit_not_special)
  with v Cons.IH [OF cs] show ?case by (simp add: digit_of_def)
qed

lemma dropWhile_hd: "s \<noteq> [] \<Longrightarrow> \<not> P (hd s) \<Longrightarrow> dropWhile P s = s"
  by (cases s) simp_all

lemma strip_hex:
  assumes "list_all is_hex_digit s"
  shows "strip s = s"
proof (cases "s = []")
  case True
  then show ?thesis by (simp add: strip_def)
next
  case False
  with assms have "is_hex_digit (hd s)" "is_hex_digit (last s)"
    by (simp_all add: list_all_iff)
  then have h: "\<not> py_isspace (hd s)" and l: "\<not> py_isspace (last s)"
    by (simp_all add: hex_digit_not_special)
  from False h have "dropWhile py_isspace s = s" by (rule dropWhile_hd)
  moreover from False l have "dropWhile py_isspace (rev s) = rev s"
    by (intro dropWhile_hd) (simp_all add: hd_rev)
  ultimately show ?thesis by (simp add: strip_def)
qed

lemma split_sign_hex: "list_all is_hex_digit s \<Longrightarrow> split_sign s = (False, s)"
  by (cases s) (auto dest: hex_digit_not_special)

lemma drop_prefix_hex: "list_all is_hex_digit s \<Longrightarrow> drop_prefix b s = s"
  by (cases "(b, s)" rule: drop_prefix.cases) (auto dest: hex_digit_not_special)

lemma py_int_hex:
  assumes "list_all is_hex_digit s" "s \<noteq> []"
  shows "py_int 16 s = Inr (int (hex_value s))"
proof -
  from assms obtain c cs where s: "s = c # cs" by (cases s) auto
  with assms have "c \<noteq> CHR ''_''" by (auto dest: hex_digit_not_special)
  with assms s show ?thesis
    unfolding py_int_def hex_value_def
    by (simp only: strip_hex split_sign_hex drop_prefix_hex scan_digits_hex Let_def prod.case
          list.case if_False option.case)
qed

lemma hex_digits_lower: "list_all is_lower_hex (hex_digits n)"
proof (induction n rule: hex_digits.induct)
  case (1 n)
  then show ?case
    by (subst hex_digits.simps) (simp add: digit_char_lower_hex)
qed

lemma hex_digits_nonempty: "hex_digits n \<noteq> []"
  by (subst hex_digits.simps) simp

lemma foldl_hex_append:
  "foldl (\<lambda>a c. a * 16 + digit_of c) acc (xs @ [c]) =
     foldl (\<lambda>a c. a * 16 + digit_of c) acc xs * 16 + digit_of c"
  by simp

lemma hex_value_hex_digits: "hex_value (hex_digits n) = n"
proof (induction n rule: hex_digits.induct)
  case (1 n)
  show ?case
  proof (cases "n < 16")
    case True
    then show ?thesis
      by (subst hex_digits.simps) (simp add: hex_value_def digit_of_digit_char)
  next
    case False
    with 1 have "hex_value (hex_digits (n div 16)) = n div 16" by simp
    with False show ?thesis
      by (subst hex_digits.simps) (simp add: hex_value_def digit_of_digit_char)
  qed
qed

lemma hex_value_zeros: "hex_value (replicate k CHR ''0'' @ s) = hex_value s"
proof -
  have "foldl (\<lambda>a c. a * 16 + digit_of c) 0 (replicate k CHR ''0'') = 0"
    by (induction k) (simp_all add: digit_of_def digit_value_def)
  then show ?thesis by (simp add: hex_value_def)
qed

lemma length_hex_digits_le: "n < 16 ^ k \<Longrightarrow> 0 < k \<Longrightarrow> length (hex_digits n) \<le> k"
proof (induction n arbitrary: k rule: hex_digits.induct)
  case (1 n)
  show ?case
  proof (cases "n < 16")
    case True
    with 1(3) show ?thesis by (subst hex_digits.simps) simp
  next
    case False
    from 1(3) obtain j where k: "k = Suc j" by (cases k) auto
    with False 1(2) have "0 < j" by (cases j) auto
    moreover have "n div 16 < 16 ^ j"
    proof -
      define t :: nat where "t = 16 ^ j"
      from 1(2) k have "n < 16 * t" by (simp add: t_def)
      then have "n div 16 < t" by arith
      then show ?thesis by (simp add: t_def)
    qed
    ultimately have "length (hex_digits (n div 16)) \<le> j" using 1(1) False by simp
    with False k show ?thesis by (subst hex_digits.simps) simp
  qed
qed

lemma length_hex_digits_gt: "16 ^ k \<le> n \<Longrightarrow> k < length (hex_digits n)"
proof (induction n arbitrary: k rule: hex_digits.induct)
  case (1 n)
  show ?case
  proof (cases k)
    case 0
    then show ?thesis using hex_digits_nonempty [of n] by simp
  next
    case (Suc j)
    define t :: nat where "t = 16 ^ j"
    have t: "1 \<le> t" by (simp add: t_def)
    from Suc 1(2) have ge: "16 * t \<le> n" by (simp add: t_def)
    with t have nl: "\<not> n < 16" by arith
    from ge have "t \<le> n div 16" by arith
    then have "16 ^ j \<le> n div 16" by (simp add: t_def)
    with 1(1) nl have "j < length (hex_digits (n div 16))" by simp
    with nl Suc show ?thesis by (subst hex_digits.simps) simp
  qed
qed

lemma replace_0x_no_x: "CHR ''x'' \<notin> set s \<Longrightarrow> replace_0x s = s"
  by (induction s rule: replace_0x.induct) auto

lemma lower_hex_no_x: "list_all is_lower_hex s \<Longrightarrow> CHR ''x'' \<notin> set s"
proof
  assume "list_all is_lower_hex s" and "CHR ''x'' \<in> set s"
  then have "is_lower_hex CHR ''x''" by (simp add: list_all_iff)
  then show False by (simp add: is_lower_hex_def)
qed

lemma replace_0x_py_hex: "0 \<le> n \<Longrightarrow> replace_0x (py_hex n) = hex_digits (nat n)"
  by (simp add: py_hex_def replace_0x_no_x lower_hex_no_x hex_digits_lower)

lemma get_new_file_sequence_hex:
  assumes "list_all is_hex_digit s" "s \<noteq> []"
  shows "get_new_file_sequence s =
           Inr (replicate (8 - length (hex_digits (hex_value s + 64))) CHR ''0'' @
                hex_digits (hex_value s + 64))"
proof -
  have "nat (int (hex_value s) + 64) = hex_value s + 64" by simp
  then show ?thesis
    by (simp add: get_new_file_sequence_def py_int_hex [OF assms] replace_0x_py_hex Let_def)
qed

lemma digit_of_less: "is_hex_digit c \<Longrightarrow> digit_of c < 16"
  by (auto simp: is_hex_digit_def digit_of_def split: option.splits)

lemma hex_value_snoc: "hex_value (xs @ [c]) = hex_value xs * 16 + digit_of c"
  by (simp add: hex_value_def)

lemma hex_value_less: "list_all is_hex_digit s \<Longrightarrow> hex_value s < 16 ^ length s"
proof (induction s rule: rev_induct)
  case Nil
  show ?case by (simp add: hex_value_def)
next
  case (snoc c xs)
  define t :: nat where "t = 16 ^ length xs"
  from snoc have "hex_value xs < t" by (simp add: t_def)
  moreover from snoc.prems have "digit_of c < 16" by (simp add: digit_of_less)
  ultimately have "hex_value xs * 16 + digit_of c < 16 * t" by arith
  then show ?case by (simp add: hex_value_snoc t_def)
qed

lemma hex_digit_zero: "is_hex_digit CHR ''0''"
  by (simp add: is_hex_digit_def digit_value_def)

lemma list_all_lower_hex_digit: "list_all is_lower_hex s \<Longrightarrow> list_all is_hex_digit s"
  by (induction s) (simp_all add: lower_hex_is_hex_digit)

lemma zeros_hex_digit: "list_all is_hex_digit (replicate k CHR ''0'')"
  by (induction k) (simp_all add: hex_digit_zero)

lemma zeros_lower_hex: "list_all is_lower_hex (replicate k CHR ''0'')"
  by (induction k) (simp_all add: is_lower_hex_def)

lemma py_int_padded:
  "py_int 16 (replicate k CHR ''0'' @ hex_digits m) = Inr (int m)"
proof -
  have "list_all is_hex_digit (replicate k CHR ''0'' @ hex_digits m)"
    by (simp add: zeros_hex_digit list_all_lower_hex_digit hex_digits_lower)
  moreover have "replicate k CHR ''0'' @ hex_digits m \<noteq> []"
    by (simp add: hex_digits_nonempty)
  ultimately show ?thesis
    by (simp add: py_int_hex hex_value_zeros hex_value_hex_digits)
qed

section \<open>Properties of the sequence cursor\<close>

text \<open>
  Claim C9. For every file id of 8 hexadecimal digits (of either case),
  \<open>get_new_file_sequence\<close> returns the lower-case hexadecimal digits of the id's base-16
  value plus 64, with zeros in front up to a length of at least 8. \<open>int(id, 16)\<close> is the
  base-16 value, the result reads back as that value plus 64, and the successor of
  \<open>00000000\<close> is \<open>00000040\<close>. Being a function of its argument, the result is
  determined by the id.
\<close>

theorem get_new_file_sequence_adds_64:
  "get_new_file_sequence ''00000000'' = Inr ''00000040'' \<and>
   (length s = 8 \<and> list_all is_hex_digit s \<longrightarrow>
      py_int 16 s = Inr (int (hex_value s)) \<and>
      get_new_file_sequence s =
        Inr (replicate (8 - length (hex_digits (hex_value s + 64))) CHR ''0'' @
             hex_digits (hex_value s + 64)) \<and>
      (\<exists>t. get_new_file_sequence s = Inr t \<and> 8 \<le> length t \<and>
           py_int 16 t = Inr (int (hex_value s) + 64)))"
proof (intro conjI impI)
  have z: "list_all is_hex_digit ''00000000''" "''00000000'' \<noteq> []"
    by (simp_all add: hex_digit_zero)
  show "get_new_file_sequence ''00000000'' = Inr ''00000040''"
    by (simp add: get_new_file_sequence_hex [OF z] hex_value_def digit_of_def digit_value_def
          digit_char_def)
next
  assume a: "length s = 8 \<and> list_all is_hex_digit s"
  then have h: "list_all is_hex_digit s" and ne: "s \<noteq> []" by auto
  show "py_int 16 s = Inr (int (hex_value s))" by (rule py_int_hex [OF h ne])
  show g: "get_new_file_sequence s =
        Inr (replicate (8 - length (hex_digits (hex_value s + 64))) CHR ''0'' @
             hex_digits (hex_value s + 64))"
    by (rule get_new_file_sequence_hex [OF h ne])
  show "\<exists>t. get_new_file_sequence s = Inr t \<and> 8 \<le> length t \<and>
           py_int 16 t = Inr (int (hex_value s) + 64)"
    by (simp add: g py_int_padded)
qed

theorem get_new_file_sequence_adds_64_witness:
  "length ''00726a3f'' = 8 \<and> list_all is_hex_digit ''00726a3f'' \<and>
   hex_value ''00726a3f'' = 7498303 \<and>
   get_new_file_sequence ''00726a3f'' = Inr ''00726a7f'' \<and>
   py_int 16 ''00726a7f'' = Inr (7498303 + 64)"
proof -
  have h: "length ''00726a3f'' = 8 \<and> list_all is_hex_digit ''00726a3f''"
    by (simp add: is_hex_digit_def digit_value_def)
  have v: "hex_value ''00726a3f'' = 7498303"
    by (simp add: hex_value_def digit_of_def digit_value_def)
  from get_new_file_sequence_adds_64 [of "''00726a3f''"] h
  have g: "get_new_file_sequence ''00726a3f'' =
        Inr (replicate (8 - length (hex_digits (hex_value ''00726a3f'' + 64))) CHR ''0'' @
             hex_digits (hex_value ''00726a3f'' + 64))"
    and "\<exists>t. get_new_file_sequence ''00726a3f'' = Inr t \<and> 8 \<le> length t \<and>
           py_int 16 t = Inr (int (hex_value ''00726a3f'') + 64)"
    by blast+
  then obtain t where t: "get_new_file_sequence ''00726a3f'' = Inr t"
    "py_int 16 t = Inr (int (hex_value ''00726a3f'') + 64)"
    by blast
  from g have r: "get_new_file_sequence ''00726a3f'' = Inr ''00726a7f''"
    by (simp add: v digit_char_def)
  with t have "py_int 16 ''00726a7f'' = Inr (7498303 + 64)" by (simp add: v)
  with h v r show ?thesis by simp
qed

text \<open>
  Claim C6, as stated, fails at the upper boundary: \<open>ffffffc0\<close> is a file id, and its
  successor \<open>100000000\<close> has nine digits.
\<close>

theorem get_new_file_sequence_overflow:
  "is_file_id ''ffffffc0'' \<and>
   get_new_file_sequence ''ffffffc0'' = Inr ''100000000'' \<and>
   \<not> is_file_id ''100000000''"
proof -
  have z: "list_all is_hex_digit ''ffffffc0''" "''ffffffc0'' \<noteq> []"
    by (simp_all add: is_hex_digit_def digit_value_def)
  have "get_new_file_sequence ''ffffffc0'' = Inr ''100000000''"
    by (simp add: get_new_file_sequence_hex [OF z] hex_value_def digit_of_def digit_value_def
          digit_char_def)
  then show ?thesis by (simp add: is_file_id_def is_lower_hex_def)
qed

text \<open>
  Claim C6, amended. For a file id (exactly 8 lower-case hexadecimal digits) whose value
  is below \<open>2^32 - 64\<close>, that is at most \<open>ffffffbf\<close>, the successor is again a
  file id. From \<open>ffffffc0\<close> upwards the successor consists of 9 lower-case hexadecimal
  digits: nothing truncates it to the fixed width.
\<close>

theorem get_new_file_sequence_file_id:
  "is_file_id s \<Longrightarrow>
     (hex_value s < 2 ^ 32 - 64 \<longrightarrow> (\<exists>t. get_new_file_sequence s = Inr t \<and> is_file_id t)) \<and>
     (2 ^ 32 - 64 \<le> hex_value s \<longrightarrow>
        (\<exists>t. get_new_file_sequence s = Inr t \<and> length t = 9 \<and> list_all is_lower_hex t))"
proof (intro conjI impI)
  assume f: "is_file_id s"
  then have len: "length s = 8" and h: "list_all is_hex_digit s" and ne: "s \<noteq> []"
    by (auto simp: is_file_id_def list_all_lower_hex_digit)
  let ?m = "hex_value s + 64"
  have g: "get_new_file_sequence s =
        Inr (replicate (8 - length (hex_digits ?m)) CHR ''0'' @ hex_digits ?m)"
    by (rule get_new_file_sequence_hex [OF h ne])
  {
    assume "hex_value s < 2 ^ 32 - 64"
    then have "?m < 16 ^ 8" by simp
    then have "length (hex_digits ?m) \<le> 8" by (rule length_hex_digits_le) simp
    then show "\<exists>t. get_new_file_sequence s = Inr t \<and> is_file_id t"
      by (simp add: g is_file_id_def hex_digits_lower zeros_lower_hex)
  }
  {
    assume "2 ^ 32 - 64 \<le> hex_value s"
    then have "16 ^ 8 \<le> ?m" by simp
    then have lo: "8 < length (hex_digits ?m)" by (rule length_hex_digits_gt)
    from hex_value_less [OF h] len have "?m < 16 ^ 9" by simp
    then have "length (hex_digits ?m) \<le> 9" by (rule length_hex_digits_le) simp
    with lo have "length (hex_digits ?m) = 9" by simp
    then show "\<exists>t. get_new_file_sequence s = Inr t \<and> length t = 9 \<and> list_all is_lower_hex t"
      by (simp add: g hex_digits_lower)
  }
qed

theorem get_new_file_sequence_file_id_witness:
  "is_file_id ''00726a3f'' \<and> hex_value ''00726a3f'' < 2 ^ 32 - 64 \<and>
   get_new_file_sequence ''00726a3f'' = Inr ''00726a7f'' \<and> is_file_id ''00726a7f'' \<and>
   is_file_id ''ffffffff'' \<and> 2 ^ 32 - 64 \<le> hex_value ''ffffffff'' \<and>
   get_new_file_sequence ''ffffffff'' = Inr ''10000003f'' \<and> length ''10000003f'' = 9 \<and>
   list_all is_lower_hex ''10000003f''"
proof -
  have a: "is_file_id ''00726a3f''" "is_file_id ''ffffffff''"
    by (simp_all add: is_file_id_def is_lower_hex_def)
  have z: "list_all is_hex_digit ''00726a3f''" "''00726a3f'' \<noteq> []"
    "list_all is_hex_digit ''ffffffff''" "''ffffffff'' \<noteq> []"
    by (simp_all add: is_hex_digit_def digit_value_def)
  have v: "hex_value ''00726a3f'' = 7498303" "hex_value ''ffffffff'' = 4294967295"
    by (simp_all add: hex_value_def digit_of_def digit_value_def)
  have g: "get_new_file_sequence ''00726a3f'' = Inr ''00726a7f''"
    "get_new_file_sequence ''ffffffff'' = Inr ''10000003f''"
    by (simp_all add: get_new_file_sequence_hex [OF z(1,2)] get_new_file_sequence_hex [OF z(3,4)]
          v digit_char_def)
  from get_new_file_sequence_file_id [OF a(1)] get_new_file_sequence_file_id [OF a(2)] a v g
  show ?thesis by (simp add: is_file_id_def is_lower_hex_def)
qed

section \<open>Properties of retrieval\<close>

lemma is_404_retryable: "is_404 outcome \<Longrightarrow> retryable outcome"
  by (cases outcome) (simp_all add: is_404_def retryable_def)

lemma download_attempts_prefix:
  "(\<And>i. i \<in> set as \<Longrightarrow> retryable (s3 i) \<and> int i \<noteq> MAX_RETRIES cfg) \<Longrightarrow>
     download_attempts cfg s3 key (as @ bs) evs =
     download_attempts cfg s3 key bs (evs @ concat (map (attempt_events cfg s3 key) as))"
proof (induction as arbitrary: evs)
  case Nil
  show ?case by simp
next
  case (Cons a as)
  from Cons.prems [of a] have r: "retryable (s3 a)" and nf: "int a \<noteq> MAX_RETRIES cfg"
    by simp_all
  from r obtain code c where code: "s3 a = Failed code" "py_int 10 code = Inr c"
    by (auto simp: retryable_def split: fetch_outcome.splits sum.splits)
  have step: "download_attempts cfg s3 key ((a # as) @ bs) evs =
      download_attempts cfg s3 key (as @ bs) (evs @ attempt_events cfg s3 key a)"
    using code nf by (simp add: attempt_events_def is_404_def)
  have "download_attempts cfg s3 key (as @ bs) (evs @ attempt_events cfg s3 key a) =
      download_attempts cfg s3 key bs
        ((evs @ attempt_events cfg s3 key a) @ concat (map (attempt_events cfg s3 key) as))"
    by (rule Cons.IH) (simp add: Cons.prems)
  with step show ?case by simp
qed

lemma download_attempts_trace:
  "\<exists>k\<le>length as. fst (download_attempts cfg s3 key as evs) =
      evs @ concat (map (attempt_events cfg s3 key) (take k as))"
proof (induction as arbitrary: evs)
  case Nil
  show ?case by simp
next
  case (Cons a as)
  show ?case
  proof (cases "retryable (s3 a) \<and> int a \<noteq> MAX_RETRIES cfg")
    case True
    then have "download_attempts cfg s3 key ([a] @ as) evs =
        download_attempts cfg s3 key as (evs @ concat (map (attempt_events cfg s3 key) [a]))"
      by (intro download_attempts_prefix) simp
    moreover from Cons.IH [of "evs @ attempt_events cfg s3 key a"]
    obtain k where "k \<le> length as"
      "fst (download_attempts cfg s3 key as (evs @ attempt_events cfg s3 key a)) =
         (evs @ attempt_events cfg s3 key a) @ concat (map (attempt_events cfg s3 key) (take k as))"
      by blast
    ultimately have "Suc k \<le> length (a # as) \<and>
        fst (download_attempts cfg s3 key (a # as) evs) =
          evs @ concat (map (attempt_events cfg s3 key) (take (Suc k) (a # as)))"
      by simp
    then show ?thesis by blast
  next
    case False
    then have "fst (download_attempts cfg s3 key (a # as) evs) = evs @ attempt_events cfg s3 key a"
      by (auto simp: retryable_def attempt_events_def is_404_def
            split: fetch_outcome.splits sum.splits)
    then have "Suc 0 \<le> length (a # as) \<and>
        fst (download_attempts cfg s3 key (a # as) evs) =
          evs @ concat (map (attempt_events cfg s3 key) (take (Suc 0) (a # as)))"
      by simp
    then show ?thesis by blast
  qed
qed

lemma fetches_attempt_events:
  "fetches (concat (map (attempt_events cfg s3 key) as)) = length as"
  by (induction as) (simp_all add: fetches_def attempt_events_def)

lemma all_404_events:
  "(\<And>i. i \<in> set as \<Longrightarrow> is_404 (s3 i) \<and> int i \<noteq> MAX_RETRIES cfg) \<Longrightarrow>
     concat (map (attempt_events cfg s3 key) as) =
     concat (replicate (length as) [Fetch key, Sleep 180])"
  by (induction as) (simp_all add: attempt_events_def)

lemma no_404_events:
  "(\<And>i. i \<in> set as \<Longrightarrow> \<not> is_404 (s3 i)) \<Longrightarrow>
     concat (map (attempt_events cfg s3 key) as) = replicate (length as) (Fetch key)"
  by (induction as) (simp_all add: attempt_events_def)

lemma range_split:
  "k < n \<Longrightarrow> [0..<n] = [0..<k] @ k # [Suc k..<n]"
proof -
  assume k: "k < n"
  then have "[0..<n] = [0..<k] @ [k..<n]"
    using upt_add_eq_append [of 0 k "n - k"] by simp
  with k show ?thesis by (simp add: upt_conv_Cons)
qed

lemma download_attempts_reach:
  assumes "k < n" "\<And>i. i < k \<Longrightarrow> retryable (s3 i) \<and> int i \<noteq> MAX_RETRIES cfg"
  shows "download_attempts cfg s3 key [0..<n] [] =
           download_attempts cfg s3 key (k # [Suc k..<n])
             (concat (map (attempt_events cfg s3 key) [0..<k]))"
proof -
  have "download_attempts cfg s3 key ([0..<k] @ k # [Suc k..<n]) [] =
           download_attempts cfg s3 key (k # [Suc k..<n])
             ([] @ concat (map (attempt_events cfg s3 key) [0..<k]))"
    by (rule download_attempts_prefix) (simp add: assms(2))
  with range_split [OF assms(1)] show ?thesis by simp
qed

lemma download_attempts_single_run:
  assumes "as \<noteq> []" "int (last as) = MAX_RETRIES cfg"
    "\<And>i. i \<in> set (butlast as) \<Longrightarrow>
       int i \<noteq> MAX_RETRIES cfg \<and> (s3 i = Downloaded \<or> is_404 (s3 i))"
  shows "\<exists>j<length as. fst (download_attempts cfg s3 key as evs) =
           evs @ concat (replicate j [Fetch key, Sleep 180]) @ [Fetch key]"
  using assms
proof (induction as arbitrary: evs)
  case Nil
  then show ?case by simp
next
  case (Cons a as)
  let ?stop = "evs @ concat (replicate 0 [Fetch key, Sleep 180]) @ [Fetch key]"
  show ?case
  proof (cases "as = []")
    case True
    with Cons.prems(2) have "int a = MAX_RETRIES cfg" by simp
    then have "fst (download_attempts cfg s3 key (a # as) evs) = ?stop"
      by (simp split: fetch_outcome.splits)
    then show ?thesis by blast
  next
    case False
    with Cons.prems(3) [of a]
    have nf: "int a \<noteq> MAX_RETRIES cfg" and o: "s3 a = Downloaded \<or> is_404 (s3 a)"
      by simp_all
    from o show ?thesis
    proof
      assume "s3 a = Downloaded"
      then have "fst (download_attempts cfg s3 key (a # as) evs) = ?stop" by simp
      then show ?thesis by blast
    next
      assume "is_404 (s3 a)"
      then obtain code where code: "s3 a = Failed code" "py_int 10 code = Inr 404"
        by (auto simp: is_404_def split: fetch_outcome.splits)
      from False Cons.prems have l: "int (last as) = MAX_RETRIES cfg"
        and b: "\<And>i. i \<in> set (butlast as) \<Longrightarrow>
           int i \<noteq> MAX_RETRIES cfg \<and> (s3 i = Downloaded \<or> is_404 (s3 i))"
        by simp_all
      from Cons.IH [OF False l b, of "evs @ [Fetch key, Sleep 180]"]
      obtain j where j: "j < length as"
        "fst (download_attempts cfg s3 key as (evs @ [Fetch key, Sleep 180])) =
           (evs @ [Fetch key, Sleep 180]) @ concat (replicate j [Fetch key, Sleep 180]) @ [Fetch key]"
        by blast
      from code nf j have "Suc j < length (a # as) \<and>
          fst (download_attempts cfg s3 key (a # as) evs) =
            evs @ concat (replicate (Suc j) [Fetch key, Sleep 180]) @ [Fetch key]"
        by simp
      then show ?thesis by blast
    qed
  qed
qed

lemma attempts_range:
  "0 \<le> m \<Longrightarrow> [0..<nat (m + 1)] = [0..<nat m] @ [nat m]"
  by (simp add: nat_add_distrib)

lemma download_file_unfold:
  "sub_directory file_name = Inr sd \<Longrightarrow>
     download_file cfg s3 file_name =
       download_attempts cfg s3 (CORE_DIRECTORY cfg @ sd @ file_name @ ''.xdr.gz'')
         [0..<nat (MAX_RETRIES cfg + 1)] []"
  by (simp add: download_file_def)

lemma download_succeeds_at:
  assumes "int k \<le> MAX_RETRIES cfg" "\<And>i. i < k \<Longrightarrow> retryable (s3 i)" "s3 k = Downloaded"
  shows "download_attempts cfg s3 key [0..<nat (MAX_RETRIES cfg + 1)] [] =
           (concat (map (attempt_events cfg s3 key) [0..<k]) @ [Fetch key], Inr ())"
proof -
  from assms(1) have "k < nat (MAX_RETRIES cfg + 1)" by simp
  moreover have "\<And>i. i < k \<Longrightarrow> retryable (s3 i) \<and> int i \<noteq> MAX_RETRIES cfg"
    using assms(1,2) by auto
  ultimately have "download_attempts cfg s3 key [0..<nat (MAX_RETRIES cfg + 1)] [] =
      download_attempts cfg s3 key (k # [Suc k..<nat (MAX_RETRIES cfg + 1)])
        (concat (map (attempt_events cfg s3 key) [0..<k]))"
    by (rule download_attempts_reach)
  with assms(3) show ?thesis by simp
qed

lemma download_fails_at_last:
  assumes "0 \<le> MAX_RETRIES cfg" "\<And>i. i < nat (MAX_RETRIES cfg) \<Longrightarrow> retryable (s3 i)"
    "s3 (nat (MAX_RETRIES cfg)) = Failed code"
  shows "download_attempts cfg s3 key [0..<nat (MAX_RETRIES cfg + 1)] [] =
           (concat (map (attempt_events cfg s3 key) [0..<nat (MAX_RETRIES cfg)]) @ [Fetch key],
            Inl (ClientError code))"
proof -
  let ?k = "nat (MAX_RETRIES cfg)"
  from assms(1) have "?k < nat (MAX_RETRIES cfg + 1)" by simp
  moreover have "\<And>i. i < ?k \<Longrightarrow> retryable (s3 i) \<and> int i \<noteq> MAX_RETRIES cfg"
    using assms(2) by auto
  ultimately have "download_attempts cfg s3 key [0..<nat (MAX_RETRIES cfg + 1)] [] =
      download_attempts cfg s3 key (?k # [Suc ?k..<nat (MAX_RETRIES cfg + 1)])
        (concat (map (attempt_events cfg s3 key) [0..<?k]))"
    by (rule download_attempts_reach)
  with assms(1,3) show ?thesis by simp
qed

lemma download_value_error_at:
  assumes "int k < MAX_RETRIES cfg" "\<And>i. i < k \<Longrightarrow> retryable (s3 i)" "s3 k = Failed code"
    "py_int 10 code = Inl e"
  shows "download_attempts cfg s3 key [0..<nat (MAX_RETRIES cfg + 1)] [] =
           (concat (map (attempt_events cfg s3 key) [0..<k]) @ [Fetch key], Inl e)"
proof -
  from assms(1) have "k < nat (MAX_RETRIES cfg + 1)" by simp
  moreover have "\<And>i. i < k \<Longrightarrow> retryable (s3 i) \<and> int i \<noteq> MAX_RETRIES cfg"
    using assms(1,2) by auto
  ultimately have "download_attempts cfg s3 key [0..<nat (MAX_RETRIES cfg + 1)] [] =
      download_attempts cfg s3 key (k # [Suc k..<nat (MAX_RETRIES cfg + 1)])
        (concat (map (attempt_events cfg s3 key) [0..<k]))"
    by (rule download_attempts_reach)
  with assms(1,3,4) show ?thesis by simp
qed

lemma py_int_error: "py_int b s = Inl e \<Longrightarrow> e = ValueError"
  by (auto simp: py_int_def Let_def split: prod.splits list.splits if_splits option.splits)

lemma sleeps_runs: "sleeps (concat (replicate j [Fetch key, Sleep 180]) @ [Fetch key]) = j"
  by (induction j) (simp_all add: sleeps_def)

lemma fetches_runs: "fetches (concat (replicate j [Fetch key, Sleep 180]) @ [Fetch key]) = Suc j"
  by (induction j) (simp_all add: fetches_def)

text \<open>
  Claim C7. With a retry limit \<open>m \<ge> 0\<close>, \<open>download_file\<close> sends at most \<open>m + 1\<close>
  requests. When the attempts before attempt \<open>k \<le> m\<close> all fail with 404 and attempt \<open>k\<close>
  succeeds, the call returns normally after \<open>k\<close> rounds of one request followed by one
  sleep of 180 seconds and one last request. When all attempts before the last fail with
  404 and the last attempt fails too, the \<open>ClientError\<close> of the last attempt is raised
  after \<open>m\<close> such rounds and one last request, that is after exactly \<open>m + 1\<close> requests.
\<close>

theorem download_file_retry_budget:
  assumes "sub_directory file_name = Inr sd"
    and "key = CORE_DIRECTORY cfg @ sd @ file_name @ ''.xdr.gz''"
    and "0 \<le> MAX_RETRIES cfg"
  shows "fetches (fst (download_file cfg s3 file_name)) \<le> nat (MAX_RETRIES cfg) + 1 \<and>
    (\<forall>k. int k \<le> MAX_RETRIES cfg \<and> (\<forall>i<k. is_404 (s3 i)) \<and> s3 k = Downloaded \<longrightarrow>
       download_file cfg s3 file_name =
         (concat (replicate k [Fetch key, Sleep 180]) @ [Fetch key], Inr ())) \<and>
    (\<forall>code. (\<forall>i<nat (MAX_RETRIES cfg). is_404 (s3 i)) \<and>
         s3 (nat (MAX_RETRIES cfg)) = Failed code \<longrightarrow>
       download_file cfg s3 file_name =
         (concat (replicate (nat (MAX_RETRIES cfg)) [Fetch key, Sleep 180]) @ [Fetch key],
          Inl (ClientError code)))"
proof (intro conjI allI impI)
  note d = download_file_unfold [OF assms(1), of cfg s3, folded assms(2)]
  from download_attempts_trace [of "[0..<nat (MAX_RETRIES cfg + 1)]" cfg s3 key "[]"]
  obtain k where "k \<le> nat (MAX_RETRIES cfg + 1)"
    "fst (download_file cfg s3 file_name) =
       concat (map (attempt_events cfg s3 key) (take k [0..<nat (MAX_RETRIES cfg + 1)]))"
    by (auto simp: d)
  then have "fetches (fst (download_file cfg s3 file_name)) \<le> nat (MAX_RETRIES cfg + 1)"
    by (simp add: fetches_attempt_events)
  with assms(3) show "fetches (fst (download_file cfg s3 file_name)) \<le> nat (MAX_RETRIES cfg) + 1"
    by (simp add: nat_add_distrib)
next
  fix k
  assume a: "int k \<le> MAX_RETRIES cfg \<and> (\<forall>i<k. is_404 (s3 i)) \<and> s3 k = Downloaded"
  note d = download_file_unfold [OF assms(1), of cfg s3, folded assms(2)]
  from a have "download_attempts cfg s3 key [0..<nat (MAX_RETRIES cfg + 1)] [] =
      (concat (map (attempt_events cfg s3 key) [0..<k]) @ [Fetch key], Inr ())"
    by (intro download_succeeds_at) (simp_all add: is_404_retryable)
  moreover from a have "concat (map (attempt_events cfg s3 key) [0..<k]) =
      concat (replicate (length [0..<k]) [Fetch key, Sleep 180])"
    by (intro all_404_events) auto
  ultimately show "download_file cfg s3 file_name =
      (concat (replicate k [Fetch key, Sleep 180]) @ [Fetch key], Inr ())"
    by (simp add: d)
next
  fix code
  assume a: "(\<forall>i<nat (MAX_RETRIES cfg). is_404 (s3 i)) \<and> s3 (nat (MAX_RETRIES cfg)) = Failed code"
  note d = download_file_unfold [OF assms(1), of cfg s3, folded assms(2)]
  from a assms(3) have "download_attempts cfg s3 key [0..<nat (MAX_RETRIES cfg + 1)] [] =
      (concat (map (attempt_events cfg s3 key) [0..<nat (MAX_RETRIES cfg)]) @ [Fetch key],
       Inl (ClientError code))"
    by (intro download_fails_at_last) (simp_all add: is_404_retryable)
  moreover from a have "concat (map (attempt_events cfg s3 key) [0..<nat (MAX_RETRIES cfg)]) =
      concat (replicate (length [0..<nat (MAX_RETRIES cfg)]) [Fetch key, Sleep 180])"
    by (intro all_404_events) auto
  ultimately show "download_file cfg s3 file_name =
      (concat (replicate (nat (MAX_RETRIES cfg)) [Fetch key, Sleep 180]) @ [Fetch key],
       Inl (ClientError code))"
    by (simp add: d)
qed

lemma sub_directory_example:
  "sub_directory ''ledger-004c93bf'' = Inr ''ledger/00/4c/93/''"
  by (simp add: sub_directory_def)

lemma py_int_404: "py_int 10 ''404'' = Inr 404"
  by (simp add: py_int_def strip_def py_isspace_def digit_value_def)

lemma is_404_example: "is_404 (Failed ''404'')"
  by (simp add: is_404_def py_int_404)

theorem download_file_retry_budget_witness:
  "sub_directory ''ledger-004c93bf'' = Inr ''ledger/00/4c/93/'' \<and>
   0 \<le> MAX_RETRIES (example_config 2) \<and>
   download_file (example_config 2) (failing_first 2 ''404'') ''ledger-004c93bf'' =
     ([Fetch ''ledger/00/4c/93/ledger-004c93bf.xdr.gz'', Sleep 180,
       Fetch ''ledger/00/4c/93/ledger-004c93bf.xdr.gz'', Sleep 180,
       Fetch ''ledger/00/4c/93/ledger-004c93bf.xdr.gz''], Inr ()) \<and>
   download_file (example_config 1) (always_failing ''404'') ''ledger-004c93bf'' =
     ([Fetch ''ledger/00/4c/93/ledger-004c93bf.xdr.gz'', Sleep 180,
       Fetch ''ledger/00/4c/93/ledger-004c93bf.xdr.gz''], Inl (ClientError ''404'')) \<and>
   fetches (fst (download_file (example_config 1) (always_failing ''404'') ''ledger-004c93bf''))
     \<le> 2"
proof -
  let ?key = "''ledger/00/4c/93/ledger-004c93bf.xdr.gz''"
  have k2: "?key = CORE_DIRECTORY (example_config 2) @ ''ledger/00/4c/93/'' @ ''ledger-004c93bf'' @ ''.xdr.gz''"
    and k1: "?key = CORE_DIRECTORY (example_config 1) @ ''ledger/00/4c/93/'' @ ''ledger-004c93bf'' @ ''.xdr.gz''"
    by (simp_all add: example_config_def)
  have m2: "0 \<le> MAX_RETRIES (example_config 2)" and m1: "0 \<le> MAX_RETRIES (example_config 1)"
    by (simp_all add: example_config_def)
  note t2 = download_file_retry_budget [OF sub_directory_example k2 m2, of "failing_first 2 ''404''"]
  note t1 = download_file_retry_budget [OF sub_directory_example k1 m1, of "always_failing ''404''"]
  have "int 2 \<le> MAX_RETRIES (example_config 2) \<and>
      (\<forall>i<2. is_404 (failing_first 2 ''404'' i)) \<and> failing_first 2 ''404'' 2 = Downloaded"
    by (simp add: example_config_def failing_first_def is_404_example)
  with t2 have a: "download_file (example_config 2) (failing_first 2 ''404'') ''ledger-004c93bf'' =
      (concat (replicate 2 [Fetch ?key, Sleep 180]) @ [Fetch ?key], Inr ())"
    by blast
  have "(\<forall>i<nat (MAX_RETRIES (example_config 1)). is_404 (always_failing ''404'' i)) \<and>
      always_failing ''404'' (nat (MAX_RETRIES (example_config 1))) = Failed ''404''"
    by (simp add: always_failing_def is_404_example)
  with t1 have b: "download_file (example_config 1) (always_failing ''404'') ''ledger-004c93bf'' =
      (concat (replicate (nat (MAX_RETRIES (example_config 1))) [Fetch ?key, Sleep 180]) @ [Fetch ?key],
       Inl (ClientError ''404''))"
    by blast
  from t1 have c: "fetches (fst (download_file (example_config 1) (always_failing ''404'')
      ''ledger-004c93bf'')) \<le> nat (MAX_RETRIES (example_config 1)) + 1"
    by blast
  have n: "nat (MAX_RETRIES (example_config 1)) = Suc 0" by (simp add: example_config_def)
  from a b c m2 show ?thesis
    by (simp add: sub_directory_example n)
qed

text \<open>
  Claim C10. The trace of \<open>download_file\<close> consists, for each attempt made, of the
  request, followed by a sleep of 180 seconds exactly when that attempt failed with 404
  and was not the last one allowed. When the last allowed attempt fails, its error is
  raised right after its request. When every attempt before the last allowed one either
  succeeds or fails with 404, the trace is \<open>j\<close> rounds of request and sleep and one
  final request: one sleep per failed attempt that was not the last, none after the last.
\<close>

theorem download_file_backoff:
  assumes "sub_directory file_name = Inr sd"
    and "key = CORE_DIRECTORY cfg @ sd @ file_name @ ''.xdr.gz''"
  shows "(\<exists>n\<le>nat (MAX_RETRIES cfg + 1). fst (download_file cfg s3 file_name) =
            concat (map (attempt_events cfg s3 key) [0..<n])) \<and>
    (0 \<le> MAX_RETRIES cfg \<and> (\<forall>i<nat (MAX_RETRIES cfg). retryable (s3 i)) \<and>
       s3 (nat (MAX_RETRIES cfg)) = Failed code \<longrightarrow>
         download_file cfg s3 file_name =
           (concat (map (attempt_events cfg s3 key) [0..<nat (MAX_RETRIES cfg)]) @ [Fetch key],
            Inl (ClientError code))) \<and>
    (0 \<le> MAX_RETRIES cfg \<and> (\<forall>i<nat (MAX_RETRIES cfg). s3 i = Downloaded \<or> is_404 (s3 i)) \<longrightarrow>
       (\<exists>j\<le>nat (MAX_RETRIES cfg).
          fst (download_file cfg s3 file_name) =
            concat (replicate j [Fetch key, Sleep 180]) @ [Fetch key] \<and>
          sleeps (fst (download_file cfg s3 file_name)) = j \<and>
          fetches (fst (download_file cfg s3 file_name)) = Suc j))"
proof (intro conjI impI)
  note d = download_file_unfold [OF assms(1), of cfg s3, folded assms(2)]
  from download_attempts_trace [of "[0..<nat (MAX_RETRIES cfg + 1)]" cfg s3 key "[]"]
  obtain k where "k \<le> nat (MAX_RETRIES cfg + 1)"
    "fst (download_file cfg s3 file_name) =
       concat (map (attempt_events cfg s3 key) (take k [0..<nat (MAX_RETRIES cfg + 1)]))"
    by (auto simp: d)
  then have "k \<le> nat (MAX_RETRIES cfg + 1) \<and> fst (download_file cfg s3 file_name) =
       concat (map (attempt_events cfg s3 key) [0..<k])"
    by simp
  then show "\<exists>n\<le>nat (MAX_RETRIES cfg + 1). fst (download_file cfg s3 file_name) =
            concat (map (attempt_events cfg s3 key) [0..<n])"
    by blast
next
  note d = download_file_unfold [OF assms(1), of cfg s3, folded assms(2)]
  assume "0 \<le> MAX_RETRIES cfg \<and> (\<forall>i<nat (MAX_RETRIES cfg). retryable (s3 i)) \<and>
       s3 (nat (MAX_RETRIES cfg)) = Failed code"
  then show "download_file cfg s3 file_name =
           (concat (map (attempt_events cfg s3 key) [0..<nat (MAX_RETRIES cfg)]) @ [Fetch key],
            Inl (ClientError code))"
    unfolding d by (intro download_fails_at_last) simp_all
next
  note d = download_file_unfold [OF assms(1), of cfg s3, folded assms(2)]
  let ?as = "[0..<nat (MAX_RETRIES cfg + 1)]"
  assume a: "0 \<le> MAX_RETRIES cfg \<and>
      (\<forall>i<nat (MAX_RETRIES cfg). s3 i = Downloaded \<or> is_404 (s3 i))"
  then have r: "?as = [0..<nat (MAX_RETRIES cfg)] @ [nat (MAX_RETRIES cfg)]"
    by (simp add: attempts_range)
  have "\<exists>j<length ?as. fst (download_attempts cfg s3 key ?as []) =
       [] @ concat (replicate j [Fetch key, Sleep 180]) @ [Fetch key]"
  proof (rule download_attempts_single_run)
    show "?as \<noteq> []" by (simp add: r)
    show "int (last ?as) = MAX_RETRIES cfg" using a by (simp add: r)
    fix i
    assume "i \<in> set (butlast ?as)"
    then have "i < nat (MAX_RETRIES cfg)" by (simp add: r)
    with a show "int i \<noteq> MAX_RETRIES cfg \<and> (s3 i = Downloaded \<or> is_404 (s3 i))" by auto
  qed
  then obtain j where "j < length ?as"
    "fst (download_file cfg s3 file_name) = concat (replicate j [Fetch key, Sleep 180]) @ [Fetch key]"
    by (auto simp: d)
  with a have "j \<le> nat (MAX_RETRIES cfg) \<and>
      fst (download_file cfg s3 file_name) =
        concat (replicate j [Fetch key, Sleep 180]) @ [Fetch key] \<and>
      sleeps (fst (download_file cfg s3 file_name)) = j \<and>
      fetches (fst (download_file cfg s3 file_name)) = Suc j"
    by (simp add: sleeps_runs fetches_runs nat_add_distrib)
  then show "\<exists>j\<le>nat (MAX_RETRIES cfg).
      fst (download_file cfg s3 file_name) =
        concat (replicate j [Fetch key, Sleep 180]) @ [Fetch key] \<and>
      sleeps (fst (download_file cfg s3 file_name)) = j \<and>
      fetches (fst (download_file cfg s3 file_name)) = Suc j"
    by blast
qed

lemma upt_0_2: "[0..<2] = [0, Suc 0]"
  by (simp add: numeral_2_eq_2)

lemma upt_0_3: "[0..<3] = [0, Suc 0, 2]"
  by (simp add: numeral_3_eq_3)

lemma sub_directory_transactions_example:
  "sub_directory ''transactions-004c93bf'' = Inr ''transactions/00/4c/93/''"
  by (simp add: sub_directory_def)

theorem download_file_backoff_witness:
  "sub_directory ''transactions-004c93bf'' = Inr ''transactions/00/4c/93/'' \<and>
   0 \<le> MAX_RETRIES (example_config 2) \<and>
   download_file (example_config 2) (always_failing ''404'') ''transactions-004c93bf'' =
     ([Fetch ''transactions/00/4c/93/transactions-004c93bf.xdr.gz'', Sleep 180,
       Fetch ''transactions/00/4c/93/transactions-004c93bf.xdr.gz'', Sleep 180,
       Fetch ''transactions/00/4c/93/transactions-004c93bf.xdr.gz''],
      Inl (ClientError ''404'')) \<and>
   fst (download_file (example_config 2) (failing_first 1 ''404'') ''transactions-004c93bf'') =
     [Fetch ''transactions/00/4c/93/transactions-004c93bf.xdr.gz'', Sleep 180,
      Fetch ''transactions/00/4c/93/transactions-004c93bf.xdr.gz''] \<and>
   sleeps (fst (download_file (example_config 2) (failing_first 1 ''404'')
     ''transactions-004c93bf'')) = 1"
proof -
  let ?key = "''transactions/00/4c/93/transactions-004c93bf.xdr.gz''"
  let ?cfg = "example_config 2"
  have k: "?key = CORE_DIRECTORY ?cfg @ ''transactions/00/4c/93/'' @
      ''transactions-004c93bf'' @ ''.xdr.gz''"
    by (simp add: example_config_def)
  have m: "nat (MAX_RETRIES ?cfg) = 2" "0 \<le> MAX_RETRIES ?cfg" by (simp_all add: example_config_def)
  note a = download_file_backoff [OF sub_directory_transactions_example k,
      of "always_failing ''404''" "''404''"]
  note b = download_file_backoff [OF sub_directory_transactions_example k,
      of "failing_first 1 ''404''" "''404''"]
  have "0 \<le> MAX_RETRIES ?cfg \<and> (\<forall>i<nat (MAX_RETRIES ?cfg). retryable (always_failing ''404'' i)) \<and>
      always_failing ''404'' (nat (MAX_RETRIES ?cfg)) = Failed ''404''"
    by (simp add: m always_failing_def is_404_retryable is_404_example)
  with a have "download_file ?cfg (always_failing ''404'') ''transactions-004c93bf'' =
      (concat (map (attempt_events ?cfg (always_failing ''404'') ?key) [0..<nat (MAX_RETRIES ?cfg)])
         @ [Fetch ?key], Inl (ClientError ''404''))"
    by blast
  then have first: "download_file ?cfg (always_failing ''404'') ''transactions-004c93bf'' =
      ([Fetch ?key, Sleep 180, Fetch ?key, Sleep 180, Fetch ?key], Inl (ClientError ''404''))"
    by (simp add: m upt_0_2 attempt_events_def always_failing_def is_404_example example_config_def)
  have "0 \<le> MAX_RETRIES ?cfg \<and> (\<forall>i<nat (MAX_RETRIES ?cfg).
      failing_first 1 ''404'' i = Downloaded \<or> is_404 (failing_first 1 ''404'' i))"
    by (simp add: m failing_first_def is_404_example)
  with b obtain j where j:
    "fst (download_file ?cfg (failing_first 1 ''404'') ''transactions-004c93bf'') =
       concat (replicate j [Fetch ?key, Sleep 180]) @ [Fetch ?key]"
    "sleeps (fst (download_file ?cfg (failing_first 1 ''404'') ''transactions-004c93bf'')) = j"
    by blast
  have tr: "fst (download_file ?cfg (failing_first 1 ''404'') ''transactions-004c93bf'') =
      [Fetch ?key, Sleep 180, Fetch ?key]"
    by (simp add: download_file_def sub_directory_transactions_example example_config_def
          failing_first_def py_int_404 upt_0_3)
  with j(1) have "length (concat (replicate j [Fetch ?key, Sleep 180]) @ [Fetch ?key]) = 3"
    by simp
  then have "j = 1" by (simp add: length_concat sum_list_replicate)
  with j(2) tr first m show ?thesis
    by (simp add: sub_directory_transactions_example)
qed

lemma other_code_events:
  "(\<And>i. i < k \<Longrightarrow> retryable (s3 i) \<and> \<not> is_404 (s3 i)) \<Longrightarrow>
     concat (map (attempt_events cfg s3 key) [0..<k]) @ [Fetch key] = replicate (Suc k) (Fetch key)"
proof -
  assume "\<And>i. i < k \<Longrightarrow> retryable (s3 i) \<and> \<not> is_404 (s3 i)"
  then have "concat (map (attempt_events cfg s3 key) [0..<k]) =
      replicate (length [0..<k]) (Fetch key)"
    by (intro no_404_events) simp
  then show ?thesis by (simp add: replicate_append_same)
qed

text \<open>
  Claim C2, amended. A failure whose code is a number other than 404, on an attempt that
  is not the last one allowed, is followed at once by the next request, without a sleep:
  after \<open>k\<close> such failures a successful attempt ends the call normally with \<open>k + 1\<close>
  requests in the trace and nothing else. The error propagates only from the last
  allowed attempt, as the \<open>ClientError\<close> of that attempt. A code that is not an integer
  literal, on an attempt before the last, ends the call with the \<open>ValueError\<close> of
  \<open>int\<close>.
\<close>

theorem download_file_other_codes:
  assumes "sub_directory file_name = Inr sd"
    and "key = CORE_DIRECTORY cfg @ sd @ file_name @ ''.xdr.gz''"
  shows "(\<forall>k. int k \<le> MAX_RETRIES cfg \<and> (\<forall>i<k. retryable (s3 i) \<and> \<not> is_404 (s3 i)) \<and>
        s3 k = Downloaded \<longrightarrow>
       download_file cfg s3 file_name = (replicate (Suc k) (Fetch key), Inr ())) \<and>
    (\<forall>code. 0 \<le> MAX_RETRIES cfg \<and>
        (\<forall>i<nat (MAX_RETRIES cfg). retryable (s3 i) \<and> \<not> is_404 (s3 i)) \<and>
        s3 (nat (MAX_RETRIES cfg)) = Failed code \<longrightarrow>
       download_file cfg s3 file_name =
         (replicate (Suc (nat (MAX_RETRIES cfg))) (Fetch key), Inl (ClientError code))) \<and>
    (\<forall>k code. int k < MAX_RETRIES cfg \<and> (\<forall>i<k. retryable (s3 i) \<and> \<not> is_404 (s3 i)) \<and>
        s3 k = Failed code \<and> \<not> retryable (Failed code) \<longrightarrow>
       download_file cfg s3 file_name = (replicate (Suc k) (Fetch key), Inl ValueError))"
proof (intro conjI allI impI)
  fix k
  note d = download_file_unfold [OF assms(1), of cfg s3, folded assms(2)]
  assume a: "int k \<le> MAX_RETRIES cfg \<and> (\<forall>i<k. retryable (s3 i) \<and> \<not> is_404 (s3 i)) \<and>
      s3 k = Downloaded"
  then have "download_attempts cfg s3 key [0..<nat (MAX_RETRIES cfg + 1)] [] =
      (concat (map (attempt_events cfg s3 key) [0..<k]) @ [Fetch key], Inr ())"
    by (intro download_succeeds_at) simp_all
  moreover from a have "concat (map (attempt_events cfg s3 key) [0..<k]) @ [Fetch key] =
      replicate (Suc k) (Fetch key)"
    by (intro other_code_events) simp
  ultimately show "download_file cfg s3 file_name = (replicate (Suc k) (Fetch key), Inr ())"
    by (simp add: d)
next
  fix code
  note d = download_file_unfold [OF assms(1), of cfg s3, folded assms(2)]
  let ?k = "nat (MAX_RETRIES cfg)"
  assume a: "0 \<le> MAX_RETRIES cfg \<and> (\<forall>i<?k. retryable (s3 i) \<and> \<not> is_404 (s3 i)) \<and>
      s3 ?k = Failed code"
  then have "download_attempts cfg s3 key [0..<nat (MAX_RETRIES cfg + 1)] [] =
      (concat (map (attempt_events cfg s3 key) [0..<?k]) @ [Fetch key], Inl (ClientError code))"
    by (intro download_fails_at_last) simp_all
  moreover from a have "concat (map (attempt_events cfg s3 key) [0..<?k]) @ [Fetch key] =
      replicate (Suc ?k) (Fetch key)"
    by (intro other_code_events) simp
  ultimately show "download_file cfg s3 file_name =
      (replicate (Suc ?k) (Fetch key), Inl (ClientError code))"
    by (simp add: d)
next
  fix k code
  note d = download_file_unfold [OF assms(1), of cfg s3, folded assms(2)]
  assume a: "int k < MAX_RETRIES cfg \<and> (\<forall>i<k. retryable (s3 i) \<and> \<not> is_404 (s3 i)) \<and>
      s3 k = Failed code \<and> \<not> retryable (Failed code)"
  then obtain e where e: "py_int 10 code = Inl e"
    by (auto simp: retryable_def split: sum.splits)
  then have v: "e = ValueError" by (rule py_int_error)
  from a e have "download_attempts cfg s3 key [0..<nat (MAX_RETRIES cfg + 1)] [] =
      (concat (map (attempt_events cfg s3 key) [0..<k]) @ [Fetch key], Inl e)"
    by (intro download_value_error_at) simp_all
  moreover from a have "concat (map (attempt_events cfg s3 key) [0..<k]) @ [Fetch key] =
      replicate (Suc k) (Fetch key)"
    by (intro other_code_events) simp
  ultimately show "download_file cfg s3 file_name = (replicate (Suc k) (Fetch key), Inl ValueError)"
    by (simp add: d v)
qed

lemma py_int_500: "py_int 10 ''500'' = Inr 500"
  by (simp add: py_int_def strip_def py_isspace_def digit_value_def)

lemma py_int_AccessDenied: "py_int 10 ''AccessDenied'' = Inl ValueError"
  by (simp add: py_int_def strip_def py_isspace_def digit_value_def)

text \<open>
  Claim C2, as stated, fails: with one retry allowed and a first attempt that fails with
  code 500, \<open>download_file\<close> sends a second request at once and returns normally.
\<close>

theorem download_file_retries_other_code:
  "failing_first 1 ''500'' 0 = Failed ''500'' \<and> py_int 10 ''500'' = Inr 500 \<and>
   download_file (example_config 1) (failing_first 1 ''500'') ''ledger-004c93bf'' =
     ([Fetch ''ledger/00/4c/93/ledger-004c93bf.xdr.gz'',
       Fetch ''ledger/00/4c/93/ledger-004c93bf.xdr.gz''], Inr ())"
  by (simp add: download_file_def sub_directory_example example_config_def failing_first_def
        py_int_500 upt_0_2)

theorem download_file_other_codes_witness:
  "sub_directory ''ledger-004c93bf'' = Inr ''ledger/00/4c/93/'' \<and>
   download_file (example_config 1) (failing_first 1 ''500'') ''ledger-004c93bf'' =
     ([Fetch ''ledger/00/4c/93/ledger-004c93bf.xdr.gz'',
       Fetch ''ledger/00/4c/93/ledger-004c93bf.xdr.gz''], Inr ()) \<and>
   download_file (example_config 1) (always_failing ''500'') ''ledger-004c93bf'' =
     ([Fetch ''ledger/00/4c/93/ledger-004c93bf.xdr.gz'',
       Fetch ''ledger/00/4c/93/ledger-004c93bf.xdr.gz''], Inl (ClientError ''500'')) \<and>
   download_file (example_config 1) (always_failing ''AccessDenied'') ''ledger-004c93bf'' =
     ([Fetch ''ledger/00/4c/93/ledger-004c93bf.xdr.gz''], Inl ValueError)"
proof -
  let ?key = "''ledger/00/4c/93/ledger-004c93bf.xdr.gz''"
  let ?cfg = "example_config 1"
  have k: "?key = CORE_DIRECTORY ?cfg @ ''ledger/00/4c/93/'' @ ''ledger-004c93bf'' @ ''.xdr.gz''"
    by (simp add: example_config_def)
  have m: "MAX_RETRIES ?cfg = 1" by (simp add: example_config_def)
  have r: "retryable (Failed ''500'')" "\<not> is_404 (Failed ''500'')"
    "\<not> retryable (Failed ''AccessDenied'')"
    by (simp_all add: retryable_def is_404_def py_int_500 py_int_AccessDenied)
  note t = download_file_other_codes [OF sub_directory_example k]
  have "int 1 \<le> MAX_RETRIES ?cfg \<and>
      (\<forall>i<1. retryable (failing_first 1 ''500'' i) \<and> \<not> is_404 (failing_first 1 ''500'' i)) \<and>
      failing_first 1 ''500'' 1 = Downloaded"
    by (simp add: m failing_first_def r)
  with t [of "failing_first 1 ''500''"]
  have a: "download_file ?cfg (failing_first 1 ''500'') ''ledger-004c93bf'' =
      (replicate (Suc 1) (Fetch ?key), Inr ())"
    by blast
  have "0 \<le> MAX_RETRIES ?cfg \<and>
      (\<forall>i<nat (MAX_RETRIES ?cfg). retryable (always_failing ''500'' i) \<and>
         \<not> is_404 (always_failing ''500'' i)) \<and>
      always_failing ''500'' (nat (MAX_RETRIES ?cfg)) = Failed ''500''"
    by (simp add: m always_failing_def r)
  with t [of "always_failing ''500''"]
  have b: "download_file ?cfg (always_failing ''500'') ''ledger-004c93bf'' =
      (replicate (Suc (nat (MAX_RETRIES ?cfg))) (Fetch ?key), Inl (ClientError ''500''))"
    by blast
  have "int 0 < MAX_RETRIES ?cfg \<and>
      (\<forall>i<0. retryable (always_failing ''AccessDenied'' i) \<and>
         \<not> is_404 (always_failing ''AccessDenied'' i)) \<and>
      always_failing ''AccessDenied'' 0 = Failed ''AccessDenied'' \<and>
      \<not> retryable (Failed ''AccessDenied'')"
    by (simp add: m always_failing_def r)
  with t [of "always_failing ''AccessDenied''"]
  have c: "download_file ?cfg (always_failing ''AccessDenied'') ''ledger-004c93bf'' =
      (replicate (Suc 0) (Fetch ?key), Inl ValueError)"
    by blast
  from a b c show ?thesis by (simp add: m sub_directory_example)
qed

section \<open>Properties of the configuration and of the shard path\<close>

text \<open>
  Claim C3 against the code: for an asset code of 5 to 12 characters the derived asset
  type is \<open>12\<close>, not \<open>alphaNum12\<close>; for a code of at most 4 characters it is
  \<open>alphaNum4\<close>.
\<close>

theorem ASSET_TYPE_long_code:
  "length ''TOKEN'' = 5 \<and>
   ASSET_TYPE ((example_config 2)\<lparr>ASSET_CODE := ''TOKEN''\<rparr>) = ''12'' \<and>
   ASSET_TYPE ((example_config 2)\<lparr>ASSET_CODE := ''LONGASSET012''\<rparr>) = ''12'' \<and>
   ASSET_TYPE (example_config 2) = ''alphaNum4''"
  by (simp add: ASSET_TYPE_def example_config_def)

lemma split_dash_no_dash: "CHR ''-'' \<notin> set s \<Longrightarrow> split_dash s = [s]"
  by (induction s) auto

lemma not_contains_first: "c \<notin> set s \<Longrightarrow> \<not> contains s (c # p)"
  by (induction s) auto

lemma hex_digit_not_l: "is_hex_digit c \<Longrightarrow> c \<noteq> CHR ''l''"
  by (auto simp: is_hex_digit_def digit_value_def)

lemma eight_chars:
  "length s = 8 \<Longrightarrow> \<exists>a b c d e f g h. s = [a, b, c, d, e, f, g, h]"
  by (simp add: numeral_eq_Suc length_Suc_conv) blast

text \<open>
  Claim C5, amended. For a file id of 8 hexadecimal digits the shard path is the kind
  prefix, \<open>ledger/\<close> or \<open>transactions/\<close>, followed by the first 9 characters of the
  id's groups of two characters joined by slashes, that is the first three groups, each
  followed by a slash. The shard path of \<open>004c93bf\<close> for a transactions file is
  \<open>transactions/00/4c/93/\<close>.
\<close>

theorem sub_directory_shard:
  assumes "length file_id = 8" "list_all is_hex_digit file_id"
  shows "sub_directory (''ledger-'' @ file_id) =
           Inr (''ledger/'' @ take 9 (join_slash (pairs file_id))) \<and>
         sub_directory (''transactions-'' @ file_id) =
           Inr (''transactions/'' @ take 9 (join_slash (pairs file_id))) \<and>
         take 9 (join_slash (pairs file_id)) =
           take 2 file_id @ ''/'' @ take 2 (drop 2 file_id) @ ''/'' @
           take 2 (drop 4 file_id) @ ''/''"
proof (intro conjI)
  from assms(2) have nd: "CHR ''-'' \<notin> set file_id" and nl: "CHR ''l'' \<notin> set file_id"
    by (auto simp: list_all_iff dest: hex_digit_not_special hex_digit_not_l)
  from assms(1) obtain a b c d e f g h where s: "file_id = [a, b, c, d, e, f, g, h]"
    using eight_chars by blast
  show "sub_directory (''ledger-'' @ file_id) =
           Inr (''ledger/'' @ take 9 (join_slash (pairs file_id)))"
    by (simp add: sub_directory_def split_dash_no_dash [OF nd])
  from nl have "\<not> contains (''transactions-'' @ file_id) ''ledger''"
    by (intro not_contains_first) simp
  then show "sub_directory (''transactions-'' @ file_id) =
           Inr (''transactions/'' @ take 9 (join_slash (pairs file_id)))"
    by (simp add: sub_directory_def split_dash_no_dash [OF nd])
  show "take 9 (join_slash (pairs file_id)) =
           take 2 file_id @ ''/'' @ take 2 (drop 2 file_id) @ ''/'' @
           take 2 (drop 4 file_id) @ ''/''"
    by (simp add: s)
qed

theorem sub_directory_shard_witness:
  "length ''004c93bf'' = 8 \<and> list_all is_hex_digit ''004c93bf'' \<and>
   sub_directory (''transactions-'' @ ''004c93bf'') = Inr ''transactions/00/4c/93/'' \<and>
   sub_directory (''ledger-'' @ ''004c93bf'') = Inr ''ledger/00/4c/93/''"
proof -
  have h: "length ''004c93bf'' = 8" "list_all is_hex_digit ''004c93bf''"
    by (simp_all add: is_hex_digit_def digit_value_def)
  from sub_directory_shard [OF h] h show ?thesis by simp
qed

text \<open>
  Claim C5, as stated, fails at its own example: the shard path of \<open>004c93bf\<close> for a
  transactions file ends with a slash.
\<close>

theorem sub_directory_trailing_slash:
  "sub_directory ''transactions-004c93bf'' = Inr ''transactions/00/4c/93/'' \<and>
   sub_directory ''transactions-004c93bf'' \<noteq> Inr ''transactions/00/4c/93''"
  by (simp add: sub_directory_def)

section \<open>Properties of projection and persistence\<close>

lemma dec_digits_numeral [simp]:
  "dec_digits (numeral k) =
     (if (numeral k :: nat) < 10 then [digit_char (numeral k)]
      else dec_digits (numeral k div 10) @ [digit_char (numeral k mod 10)])"
  by (rule dec_digits.simps)

lemma dec_digits_0 [simp]: "dec_digits 0 = ''0''"
  by (simp add: dec_digits.simps digit_char_def)

lemma dec_digits_1 [simp]: "dec_digits (Suc 0) = ''1''"
  by (simp add: dec_digits.simps digit_char_def)

lemma py_str_1500: "py_str 1500 = ''1500''"
  by (simp add: py_str_def digit_char_def)

lemma py_str_1000: "py_str 1000 = ''1000''"
  by (simp add: py_str_def digit_char_def)


lemma execute_cases:
  "execute db q c = (r, c') \<Longrightarrow>
     (r = None \<and> c' = c\<lparr>pending := pending c @ [q]\<rparr>) \<or> (r = Some DatabaseError \<and> c' = c)"
  by (auto simp: execute_def split: if_splits)

lemma commit_cases:
  "commit db c = (r, c') \<Longrightarrow>
     (r = None \<and> c' = c\<lparr>committed := committed c @ pending c, pending := []\<rparr>) \<or>
     (r = Some DatabaseError \<and> c' = c)"
  by (auto simp: commit_def split: if_splits)

lemma operations_loop_log:
  "operations_loop cfg db timestamp transaction ops c = (r, c') \<Longrightarrow>
     committed c' = committed c \<and>
     (r = None \<longrightarrow> pending c' = pending c @ map row_sql (concat (map (\<lambda>operation.
        case operation_row cfg timestamp transaction operation of
          Inr (Some r) \<Rightarrow> [r] | _ \<Rightarrow> []) ops)))"
proof (induction ops arbitrary: c)
  case Nil
  then show ?case by auto
next
  case (Cons operation ops)
  show ?case
  proof (cases "operation_row cfg timestamp transaction operation")
    case (Inl e)
    with Cons.prems show ?thesis by auto
  next
    case (Inr ro)
    show ?thesis
    proof (cases ro)
      case None
      with Inr Cons.prems have "operations_loop cfg db timestamp transaction ops c = (r, c')"
        by simp
      from Cons.IH [OF this] Inr None show ?thesis by simp
    next
      case (Some row)
      obtain r1 c1 where e: "execute db (row_sql row) c = (r1, c1)" by (cases "execute db (row_sql row) c")
      from execute_cases [OF e] show ?thesis
      proof
        assume a: "r1 = None \<and> c1 = c\<lparr>pending := pending c @ [row_sql row]\<rparr>"
        with Inr Some e Cons.prems
        have "operations_loop cfg db timestamp transaction ops c1 = (r, c')" by simp
        from Cons.IH [OF this] a Inr Some show ?thesis by simp
      next
        assume "r1 = Some DatabaseError \<and> c1 = c"
        with Inr Some e Cons.prems show ?thesis by auto
      qed
    qed
  qed
qed

lemma transactions_loop_log:
  "transactions_loop cfg db timestamp ts c = (r, c') \<Longrightarrow>
     committed c' = committed c \<and>
     (r = None \<longrightarrow> pending c' =
        pending c @ map row_sql (concat (map (transaction_rows cfg timestamp) ts)))"
proof (induction ts arbitrary: c)
  case Nil
  then show ?case by auto
next
  case (Cons t ts)
  obtain r1 c1 where o: "operations_loop cfg db timestamp t (operations (tx t)) c = (r1, c1)"
    by (cases "operations_loop cfg db timestamp t (operations (tx t)) c")
  note l = operations_loop_log [OF o]
  show ?case
  proof (cases r1)
    case None
    with o Cons.prems have "transactions_loop cfg db timestamp ts c1 = (r, c')" by simp
    from Cons.IH [OF this] l None show ?thesis by (simp add: transaction_rows_def)
  next
    case (Some e)
    with o Cons.prems l show ?thesis by auto
  qed
qed

lemma entries_loop_log:
  "entries_loop cfg db ledgers_dictionary es c = (r, c') \<Longrightarrow>
     committed c' = committed c \<and>
     (r = None \<longrightarrow> pending c' =
        pending c @ map row_sql (file_rows cfg ledgers_dictionary es))"
proof (induction es arbitrary: c)
  case Nil
  then show ?case by (auto simp: file_rows_def)
next
  case (Cons entry es)
  let ?ts = "ledgers_dictionary (entry_ledgerSeq entry)"
  obtain r1 c1 where o: "transactions_loop cfg db ?ts (txs (txSet entry)) c = (r1, c1)"
    by (cases "transactions_loop cfg db ?ts (txs (txSet entry)) c")
  note l = transactions_loop_log [OF o]
  show ?case
  proof (cases r1)
    case None
    with o Cons.prems have "entries_loop cfg db ledgers_dictionary es c1 = (r, c')" by simp
    from Cons.IH [OF this] l None show ?thesis by (simp add: file_rows_def)
  next
    case (Some e)
    with o Cons.prems l show ?thesis by auto
  qed
qed

lemma write_to_postgres_log:
  assumes "write_to_postgres cfg db transactions ledgers_dictionary file_name c = (r, c')"
  shows "(r = None \<longrightarrow>
            committed c' = committed c @ pending c @
              map row_sql (file_rows cfg ledgers_dictionary transactions) @
              [lastfile_sql file_name] \<and> pending c' = []) \<and>
         (r \<noteq> None \<longrightarrow> committed c' = committed c)"
proof -
  obtain r1 c1 where o: "entries_loop cfg db ledgers_dictionary transactions c = (r1, c1)"
    by (cases "entries_loop cfg db ledgers_dictionary transactions c")
  note l = entries_loop_log [OF o]
  show ?thesis
  proof (cases r1)
    case (Some e)
    with o assms l show ?thesis by (auto simp: write_to_postgres_def)
  next
    case None
    obtain r2 c2 where e: "execute db (lastfile_sql file_name) c1 = (r2, c2)"
      by (cases "execute db (lastfile_sql file_name) c1")
    from execute_cases [OF e] show ?thesis
    proof
      assume a: "r2 = Some DatabaseError \<and> c2 = c1"
      with o None e assms l show ?thesis by (auto simp: write_to_postgres_def)
    next
      assume a: "r2 = None \<and> c2 = c1\<lparr>pending := pending c1 @ [lastfile_sql file_name]\<rparr>"
      with o None e assms have "commit db c2 = (r, c')" by (simp add: write_to_postgres_def)
      from commit_cases [OF this] a l None show ?thesis by auto
    qed
  qed
qed

lemma asset_matches_target:
  "a (ASSET_TYPE cfg) = Some (Some an) \<Longrightarrow> assetCode an = ASSET_CODE cfg \<Longrightarrow>
     ed25519 (issuer an) = ASSET_ISSUER cfg \<Longrightarrow> asset_matches cfg a = Inr True"
  by (simp add: asset_matches_def)

lemma operation_row_target_key:
  "(body_type (body operation) = 1 \<and> paymentOp (body operation) = Some p \<and>
      asset p (ASSET_TYPE cfg) = Some (Some an) \<and> assetCode an = ASSET_CODE cfg \<and>
      ed25519 (issuer an) = ASSET_ISSUER cfg \<longrightarrow>
    operation_row cfg timestamp transaction operation =
      Inr (Some (PaymentRow (row_source transaction operation) (ed25519 (destination p))
        (amount p) (memo_text (tx_memo (tx transaction))) (hash transaction) timestamp))) \<and>
   (body_type (body operation) = 6 \<and> changeTrustOp (body operation) = Some ct \<and>
      line ct (ASSET_TYPE cfg) = Some (Some an) \<and> assetCode an = ASSET_CODE cfg \<and>
      ed25519 (issuer an) = ASSET_ISSUER cfg \<longrightarrow>
    operation_row cfg timestamp transaction operation =
      Inr (Some (TrustlineRow (row_source transaction operation)
        (memo_text (tx_memo (tx transaction))) (hash transaction) timestamp))) \<and>
   (op_sourceAccount operation = Some (account # others) \<longrightarrow>
      row_source transaction operation = ed25519 account) \<and>
   (op_sourceAccount operation = None \<or> op_sourceAccount operation = Some [] \<longrightarrow>
      row_source transaction operation = ed25519 (tx_sourceAccount (tx transaction))) \<and>
   (operation_row cfg timestamp transaction operation = Inr (Some r) \<and> \<not> rejects db c (row_sql r) \<longrightarrow>
      operations_loop cfg db timestamp transaction [operation] c =
        (None, c\<lparr>pending := pending c @ [row_sql r]\<rparr>)) \<and>
   row_sql (PaymentRow source dest amt None tx_hash timestamp) =
     ''INSERT INTO payments VALUES ('' @ quote @ source @ quote @ '','' @ quote @ dest @ quote @
     '','' @ py_str amt @ '',NULL,'' @ quote @ tx_hash @ quote @
     '',to_timestamp('' @ format_timestamp timestamp @ ''));'' \<and>
   row_sql (PaymentRow source dest amt (Some m) tx_hash timestamp) =
     ''INSERT INTO payments VALUES ('' @ quote @ source @ quote @ '','' @ quote @ dest @ quote @
     '','' @ py_str amt @ '','' @ quote @ m @ quote @ '','' @ quote @ tx_hash @ quote @
     '',to_timestamp('' @ format_timestamp timestamp @ ''));'' \<and>
   row_sql (TrustlineRow source None tx_hash timestamp) =
     ''INSERT INTO trustlines VALUES ('' @ quote @ source @ quote @ '', NULL, '' @
     quote @ tx_hash @ quote @ '',to_timestamp('' @ format_timestamp timestamp @ ''));'' \<and>
   row_sql (TrustlineRow source (Some m) tx_hash timestamp) =
     ''INSERT INTO trustlines VALUES ('' @ quote @ source @ quote @ '', '' @ quote @ m @ quote @
     '', '' @ quote @ tx_hash @ quote @ '',to_timestamp('' @ format_timestamp timestamp @ ''));'' \<and>
   memo_sql None \<noteq> memo_sql (Some m)"
proof (intro conjI impI)
  assume "body_type (body operation) = 1 \<and> paymentOp (body operation) = Some p \<and>
      asset p (ASSET_TYPE cfg) = Some (Some an) \<and> assetCode an = ASSET_CODE cfg \<and>
      ed25519 (issuer an) = ASSET_ISSUER cfg"
  then show "operation_row cfg timestamp transaction operation =
      Inr (Some (PaymentRow (row_source transaction operation) (ed25519 (destination p))
        (amount p) (memo_text (tx_memo (tx transaction))) (hash transaction) timestamp))"
    by (simp add: operation_row_def asset_matches_target)
next
  assume "body_type (body operation) = 6 \<and> changeTrustOp (body operation) = Some ct \<and>
      line ct (ASSET_TYPE cfg) = Some (Some an) \<and> assetCode an = ASSET_CODE cfg \<and>
      ed25519 (issuer an) = ASSET_ISSUER cfg"
  then show "operation_row cfg timestamp transaction operation =
      Inr (Some (TrustlineRow (row_source transaction operation)
        (memo_text (tx_memo (tx transaction))) (hash transaction) timestamp))"
    by (simp add: operation_row_def asset_matches_target)
next
  assume "op_sourceAccount operation = Some (account # others)"
  then show "row_source transaction operation = ed25519 account"
    by (simp add: row_source_def)
next
  assume "op_sourceAccount operation = None \<or> op_sourceAccount operation = Some []"
  then show "row_source transaction operation = ed25519 (tx_sourceAccount (tx transaction))"
    by (auto simp: row_source_def)
next
  assume "operation_row cfg timestamp transaction operation = Inr (Some r) \<and>
      \<not> rejects db c (row_sql r)"
  then show "operations_loop cfg db timestamp transaction [operation] c =
        (None, c\<lparr>pending := pending c @ [row_sql r]\<rparr>)"
    by (simp add: execute_def)
next
  show "memo_sql None \<noteq> memo_sql (Some m)"
    by (simp add: memo_sql_def quote_def)
qed (simp_all add: memo_sql_def)

lemma example_asset_type: "ASSET_TYPE (example_config m) = ''alphaNum4''"
  by (simp add: ASSET_TYPE_def example_config_def)

lemma example_payment_row:
  "operation_row (example_config m) timestamp (example_transaction ops) example_payment =
     Inr (Some (PaymentRow ''GSOURCE'' ''GDEST'' 1500 None ''abcd'' timestamp))"
  by (simp add: operation_row_def asset_matches_def ASSET_TYPE_def example_payment_def
        example_asset_def example_transaction_def row_source_def example_config_def)

lemma example_trust_row:
  "operation_row (example_config m) timestamp (example_transaction ops) example_trust =
     Inr (Some (TrustlineRow ''GOTHER'' None ''abcd'' timestamp))"
  by (simp add: operation_row_def asset_matches_def ASSET_TYPE_def example_trust_def
        example_asset_def example_transaction_def row_source_def example_config_def)

lemma example_row_sql_1000:
  "row_sql (PaymentRow ''GSOURCE'' ''GDEST'' 1500 None ''abcd'' (Some 1000)) =
     ''INSERT INTO payments VALUES ('GSOURCE','GDEST',1500,NULL,'abcd',to_timestamp(1000));''"
  by (simp add: quote_def memo_sql_def format_timestamp_def py_str_1500 py_str_1000)

lemma operation_row_close_time:
  "operation_row cfg timestamp transaction operation = Inr (Some r) \<Longrightarrow> close_time r = timestamp"
  by (auto simp: operation_row_def Let_def split: if_splits option.splits sum.splits bool.splits)

lemma transaction_rows_close_time:
  "r \<in> set (transaction_rows cfg timestamp transaction) \<Longrightarrow> close_time r = timestamp"
  by (auto simp: transaction_rows_def dest: operation_row_close_time [OF sym]
        split: sum.splits option.splits)

lemma file_rows_close_time:
  "r \<in> set (file_rows cfg ledgers_dictionary transactions) \<Longrightarrow>
     \<exists>entry\<in>set transactions. close_time r = ledgers_dictionary (entry_ledgerSeq entry)"
  by (auto simp: file_rows_def dest: transaction_rows_close_time)

lemma example_operations: "operations (tx (example_transaction ops)) = ops"
  by (simp add: example_transaction_def)

lemma example_entry_fields:
  "entry_ledgerSeq (example_entry ops) = 100"
  "txs (txSet (example_entry ops)) = [example_transaction ops]"
  by (simp_all add: example_entry_def)

lemma example_dictionary:
  "get_ledgers_dictionary [] 100 = None"
  "get_ledgers_dictionary [example_ledger] 100 = Some 1000"
  by (simp_all add: get_ledgers_dictionary_def example_ledger_def)

lemma example_write:
  "write_to_postgres (example_config m) accepting [example_entry [example_payment]] d
     file_name empty_conn =
     (None, \<lparr>committed = [row_sql (PaymentRow ''GSOURCE'' ''GDEST'' 1500 None ''abcd'' (d 100)),
        lastfile_sql file_name], pending = []\<rparr>)"
  by (simp add: write_to_postgres_def example_entry_fields example_operations example_payment_row
        execute_def commit_def accepting_def empty_conn_def)

lemma example_write_rejected:
  "write_to_postgres (example_config m) rejecting_update [example_entry [example_payment]] d
     file_name empty_conn =
     (Some DatabaseError,
      \<lparr>committed = [],
       pending = [row_sql (PaymentRow ''GSOURCE'' ''GDEST'' 1500 None ''abcd'' (d 100))]\<rparr>)"
  by (simp add: write_to_postgres_def example_entry_fields example_operations example_payment_row
        execute_def commit_def rejecting_update_def empty_conn_def lastfile_sql_def)

lemma main_cycle_success:
  assumes "main_cycle cfg db s3_ledger s3_transactions ledgers transactions file_sequence c =
      (None, new_file_name, c')"
  shows "write_to_postgres cfg db transactions (get_ledgers_dictionary ledgers) file_sequence c =
      (None, c') \<and> get_new_file_sequence file_sequence = Inr new_file_name"
  using assms
  by (auto simp: main_cycle_def Let_def split: sum.splits option.splits prod.splits)

lemma example_file_rows:
  "file_rows (example_config m) d [example_entry [example_payment]] =
     [PaymentRow ''GSOURCE'' ''GDEST'' 1500 None ''abcd'' (d 100)]"
  by (simp add: file_rows_def transaction_rows_def example_entry_fields example_operations
        example_payment_row)

lemma example_next: "get_new_file_sequence ''00000040'' = Inr ''00000080''"
proof -
  have z: "list_all is_hex_digit ''00000040''" "''00000040'' \<noteq> []"
    by (simp_all add: is_hex_digit_def digit_value_def)
  show ?thesis
    by (simp add: get_new_file_sequence_hex [OF z] hex_value_def digit_of_def digit_value_def
          digit_char_def)
qed

lemma example_downloads:
  "snd (download_file (example_config 2) (failing_first 0 code) ''ledger-00000040'') = Inr ()"
  "snd (download_file (example_config 2) (failing_first 0 code) ''transactions-00000040'') = Inr ()"
  by (simp_all add: download_file_def sub_directory_def example_config_def failing_first_def
        upt_0_3)

lemma example_cycle:
  "main_cycle (example_config 2) accepting (failing_first 0 ''404'') (failing_first 0 ''404'')
     [example_ledger] [example_entry [example_payment]] ''00000040'' empty_conn =
     (None, ''00000080'',
      \<lparr>committed =
         [row_sql (PaymentRow ''GSOURCE'' ''GDEST'' 1500 None ''abcd'' (Some 1000)),
          lastfile_sql ''00000040''], pending = []\<rparr>)"
  by (simp add: main_cycle_def example_downloads example_write example_dictionary example_next)














lemma example_lastfile_sql:
  "lastfile_sql ''00000040'' = ''UPDATE lastfile SET name = '00000040'' @ [CHR 0x27]"
  by (simp add: lastfile_sql_def quote_def)










text \<open>
  Claim C1. When \<open>write_to_postgres\<close> returns normally, the committed log has grown by
  the statements pending before, the statements of all rows of the file in order, and
  last the statement \<open>UPDATE lastfile SET name = '...'\<close> with the given file name between
  the quotes, and nothing is left pending. When it raises, from a row, from a rejected
  statement, from the rejected update, or from a failed commit, the committed log is
  what it was. A cycle of the main loop that succeeds has committed that update with
  the file sequence it processed, and holds the next file sequence in memory only.
\<close>

theorem write_to_postgres_unit_of_work:
  "(write_to_postgres cfg db transactions ledgers_dictionary file_name c = (r, c') \<longrightarrow>
      (r = None \<longrightarrow>
         committed c' = committed c @ pending c @
           map row_sql (file_rows cfg ledgers_dictionary transactions) @
           [''UPDATE lastfile SET name = '' @ [CHR 0x27] @ file_name @ [CHR 0x27]] \<and>
         pending c' = []) \<and>
      (r \<noteq> None \<longrightarrow> committed c' = committed c)) \<and>
   (main_cycle cfg db s3_ledger s3_transactions ledgers transactions file_sequence c =
      (None, new_file_name, c'') \<longrightarrow>
      committed c'' = committed c @ pending c @
        map row_sql (file_rows cfg (get_ledgers_dictionary ledgers) transactions) @
        [''UPDATE lastfile SET name = '' @ [CHR 0x27] @ file_sequence @ [CHR 0x27]] \<and>
      get_new_file_sequence file_sequence = Inr new_file_name)"
proof (intro conjI impI)
  assume w: "write_to_postgres cfg db transactions ledgers_dictionary file_name c = (r, c')"
  {
    assume "r = None"
    with write_to_postgres_log [OF w]
    show "committed c' = committed c @ pending c @
        map row_sql (file_rows cfg ledgers_dictionary transactions) @
        [''UPDATE lastfile SET name = '' @ [CHR 0x27] @ file_name @ [CHR 0x27]]"
      and "pending c' = []"
      by (simp_all add: lastfile_sql_def quote_def)
  }
  {
    assume "r \<noteq> None"
    with write_to_postgres_log [OF w] show "committed c' = committed c" by simp
  }
next
  assume m: "main_cycle cfg db s3_ledger s3_transactions ledgers transactions file_sequence c =
      (None, new_file_name, c'')"
  from main_cycle_success [OF m]
  have w: "write_to_postgres cfg db transactions (get_ledgers_dictionary ledgers) file_sequence c =
      (None, c'')"
    and n: "get_new_file_sequence file_sequence = Inr new_file_name"
    by simp_all
  from write_to_postgres_log [OF w]
  show "committed c'' = committed c @ pending c @
      map row_sql (file_rows cfg (get_ledgers_dictionary ledgers) transactions) @
      [''UPDATE lastfile SET name = '' @ [CHR 0x27] @ file_sequence @ [CHR 0x27]]"
    by (simp add: lastfile_sql_def quote_def)
  from n show "get_new_file_sequence file_sequence = Inr new_file_name" .
qed

theorem write_to_postgres_unit_of_work_witness:
  "write_to_postgres (example_config 2) accepting [example_entry [example_payment]]
     (get_ledgers_dictionary [example_ledger]) ''00000040'' empty_conn =
     (None, \<lparr>committed =
        [''INSERT INTO payments VALUES ('GSOURCE','GDEST',1500,NULL,'abcd',to_timestamp(1000));'',
         ''UPDATE lastfile SET name = '00000040'' @ [CHR 0x27]], pending = []\<rparr>) \<and>
   write_to_postgres (example_config 2) rejecting_update [example_entry [example_payment]]
     (get_ledgers_dictionary [example_ledger]) ''00000040'' empty_conn =
     (Some DatabaseError, \<lparr>committed = [], pending =
        [''INSERT INTO payments VALUES ('GSOURCE','GDEST',1500,NULL,'abcd',to_timestamp(1000));'']\<rparr>) \<and>
   main_cycle (example_config 2) accepting (failing_first 0 ''404'') (failing_first 0 ''404'')
     [example_ledger] [example_entry [example_payment]] ''00000040'' empty_conn =
     (None, ''00000080'', \<lparr>committed =
        [''INSERT INTO payments VALUES ('GSOURCE','GDEST',1500,NULL,'abcd',to_timestamp(1000));'',
         ''UPDATE lastfile SET name = '00000040'' @ [CHR 0x27]], pending = []\<rparr>) \<and>
   get_new_file_sequence ''00000040'' = Inr ''00000080''"
proof -
  let ?cfg = "example_config 2"
  let ?es = "[example_entry [example_payment]]"
  let ?d = "get_ledgers_dictionary [example_ledger]"
  let ?q = "''INSERT INTO payments VALUES ('GSOURCE','GDEST',1500,NULL,'abcd',to_timestamp(1000));''"
  let ?u = "''UPDATE lastfile SET name = '00000040'' @ [CHR 0x27]"
  let ?ok = "\<lparr>committed = [?q, ?u], pending = []\<rparr>"
  let ?bad = "\<lparr>committed = [], pending = [?q]\<rparr>"
  have a: "write_to_postgres ?cfg accepting ?es ?d ''00000040'' empty_conn = (None, ?ok)"
    by (simp only: example_write example_dictionary example_row_sql_1000 example_lastfile_sql)
  have b: "write_to_postgres ?cfg rejecting_update ?es ?d ''00000040'' empty_conn =
      (Some DatabaseError, ?bad)"
    by (simp only: example_write_rejected example_dictionary example_row_sql_1000)
  have c: "main_cycle ?cfg accepting (failing_first 0 ''404'') (failing_first 0 ''404'')
      [example_ledger] ?es ''00000040'' empty_conn = (None, ''00000080'', ?ok)"
    by (simp only: example_cycle example_row_sql_1000 example_lastfile_sql)
  note t = write_to_postgres_unit_of_work [where cfg = ?cfg and transactions = ?es
      and file_name = "''00000040''" and file_sequence = "''00000040''" and c = empty_conn
      and ledgers = "[example_ledger]" and ledgers_dictionary = ?d]
  from t [where db = accepting and r = None and c' = ?ok] a
  have "committed ?ok = committed empty_conn @ pending empty_conn @
      map row_sql (file_rows ?cfg ?d ?es) @
      [''UPDATE lastfile SET name = '' @ [CHR 0x27] @ ''00000040'' @ [CHR 0x27]]"
    by blast
  moreover from t [where db = rejecting_update and r = "Some DatabaseError" and c' = ?bad] b
  have "committed ?bad = committed empty_conn" by blast
  moreover from t [where db = accepting and s3_ledger = "failing_first 0 ''404''"
      and s3_transactions = "failing_first 0 ''404''" and new_file_name = "''00000080''"
      and c'' = ?ok] c
  have "get_new_file_sequence ''00000040'' = Inr ''00000080''" by blast
  ultimately show ?thesis using a b c by simp
qed

text \<open>
  Claim C8 against the code: with the asset code \<open>TOKEN\<close> configured, a payment whose
  asset has that code and the configured issuer under the key \<open>alphaNum12\<close> produces
  no row. \<open>ASSET_TYPE\<close> is \<open>12\<close>, the asset has no such key, and the lookup raises
  \<open>KeyError\<close>, which ends \<open>write_to_postgres\<close> with nothing committed.
\<close>

theorem operation_row_long_code:
  "ASSET_CODE long_code_config = ''TOKEN'' \<and> ASSET_ISSUER long_code_config = ''GISSUER'' \<and>
   body_type (body long_payment) = 1 \<and>
   paymentOp (body long_payment) =
     Some \<lparr>asset = long_asset, destination = \<lparr>ed25519 = ''GDEST''\<rparr>, amount = 1500\<rparr> \<and>
   long_asset ''alphaNum12'' =
     Some (Some \<lparr>assetCode = ''TOKEN'', issuer = \<lparr>ed25519 = ''GISSUER''\<rparr>\<rparr>) \<and>
   long_asset ''alphaNum4'' = Some None \<and>
   ASSET_TYPE long_code_config = ''12'' \<and> long_asset ''12'' = None \<and>
   operation_row long_code_config (Some 1000) (example_transaction [long_payment]) long_payment =
     Inl KeyError \<and>
   write_to_postgres long_code_config accepting [example_entry [long_payment]]
     (get_ledgers_dictionary [example_ledger]) ''00000040'' empty_conn =
     (Some KeyError, \<lparr>committed = [], pending = []\<rparr>)"
proof -
  have t: "ASSET_TYPE long_code_config = ''12''"
    by (simp add: ASSET_TYPE_def long_code_config_def)
  have k: "long_asset ''12'' = None" by (simp add: long_asset_def)
  have r: "operation_row long_code_config ts (example_transaction ops) long_payment = Inl KeyError"
    for ts ops
    by (simp add: operation_row_def asset_matches_def t long_payment_def k)
  have w: "write_to_postgres long_code_config accepting [example_entry [long_payment]]
      (get_ledgers_dictionary [example_ledger]) ''00000040'' empty_conn =
      (Some KeyError, \<lparr>committed = [], pending = []\<rparr>)"
    by (simp add: write_to_postgres_def example_entry_fields example_operations r empty_conn_def)
  from t k r w show ?thesis
    by (simp add: long_code_config_def long_payment_def long_asset_def)
qed

end
